theory Spec2Isabelle
  imports Complex_Main
begin

section \<open>The heatapp client: hub and radiators over a datagram transport\<close>

text \<open>
  The development follows \<^verbatim>\<open>custom_components/heatapp/heatapp/heatapp.py\<close>:
  the class \<^verbatim>\<open>HeatappHub\<close> (one UDP socket, \<^verbatim>\<open>send_command\<close> and the
  hub-level queries) and the class \<^verbatim>\<open>HeatappRadiator\<close> (the per-zone reads and
  writes that fan out over the physical units of a zone).

  Python exceptions are values of the type \<open>pyerr\<close>; a method that talks to the hub
  takes the state of the network and returns its result (\<open>Inl\<close> an exception, \<open>Inr\<close> a
  value) together with the new state.
\<close>

subsection \<open>Exceptions and the network\<close>

datatype pyerr =
  ConnectionError | ValueError | IndexError | UnicodeDecodeError | OverflowError

text \<open>
  What one \<^verbatim>\<open>sendto\<close>/\<^verbatim>\<open>recvfrom\<close>/\<^verbatim>\<open>decode\<close> round of \<^verbatim>\<open>send_command\<close>
  meets: \<^verbatim>\<open>recvfrom\<close> raises \<^verbatim>\<open>socket.timeout\<close>, or a datagram arrives whose
  bytes \<^verbatim>\<open>decode()\<close> turns into text (carried here as the decoded text), or a
  datagram arrives that is not valid UTF-8, on which \<^verbatim>\<open>decode()\<close> raises.
  The text is that of the at most 1024 bytes which \<^verbatim>\<open>recvfrom(1024)\<close> hands over;
  its characters are the code points below 256, which the protocol's ASCII and the two
  padding bytes lie in.
\<close>

datatype outcome = Timeout | Received string | Undecodable

text \<open>
  The network: the outcomes still to come, one per exchange, and the commands sent so
  far, oldest first. When no outcome is left no datagram ever arrives, and
  \<^verbatim>\<open>recvfrom\<close> times out.
\<close>

record net =
  pending :: "outcome list"
  sent :: "string list"

definition exchange :: "string \<Rightarrow> net \<Rightarrow> outcome \<times> net" where
  "exchange command w =
     (case pending w of
        [] \<Rightarrow> (Timeout, w\<lparr>sent := sent w @ [command]\<rparr>)
      | x # xs \<Rightarrow> (x, \<lparr>pending = xs, sent = sent w @ [command]\<rparr>))"

subsection \<open>The string operations of the Python library that the client uses\<close>

text \<open>\<^verbatim>\<open>s.rstrip(c)\<close> for a one-character argument: drop the trailing run of \<open>c\<close>.\<close>

definition rstrip :: "char \<Rightarrow> string \<Rightarrow> string" where
  "rstrip c s = rev (dropWhile (\<lambda>x. x = c) (rev s))"

text \<open>
  \<^verbatim>\<open>s.split(",")\<close>: the fields between the separators; never the empty list, the
  empty string gives one empty field.
\<close>

fun split :: "char \<Rightarrow> string \<Rightarrow> string list" where
  "split c [] = [[]]"
| "split c (x # xs) =
     (if x = c then [] # split c xs
      else (case split c xs of [] \<Rightarrow> [[x]] | f # fs \<Rightarrow> (x # f) # fs))"

text \<open>\<^verbatim>\<open>xs[k]\<close> for a constant index \<open>k \<ge> 0\<close>: IndexError out of range.\<close>

definition item :: "'a list \<Rightarrow> nat \<Rightarrow> pyerr + 'a" where
  "item xs k = (if k < length xs then Inr (xs ! k) else Inl IndexError)"

text \<open>\<^verbatim>\<open>xs.index(v)\<close>: the first position of \<open>v\<close>, ValueError when it is absent.\<close>

fun index :: "'a list \<Rightarrow> 'a \<Rightarrow> pyerr + nat" where
  "index [] v = Inl ValueError"
| "index (x # xs) v =
     (if x = v then Inr 0
      else (case index xs v of Inl e \<Rightarrow> Inl e | Inr k \<Rightarrow> Inr (Suc k)))"

text \<open>
  \<^verbatim>\<open>int(s)\<close> in base ten: white space around the number is dropped, one sign may
  lead, and the digits may be grouped by single underscores; anything else is a
  ValueError. The white space that \<^verbatim>\<open>int\<close> drops is tab, line feed, vertical
  tab, form feed, carriage return and space (9 to 13 and 32) and, of the code points
  from 128 on, next line (133) and no-break space (160); the separators 28 to 31,
  which \<^verbatim>\<open>str.strip\<close> would drop, are not among them.
\<close>

definition isspace :: "char \<Rightarrow> bool" where
  "isspace c =
     (let n = (of_char c :: nat)
      in (9 \<le> n \<and> n \<le> 13) \<or> n = 32 \<or> n = 133 \<or> n = 160)"

definition strip :: "string \<Rightarrow> string" where
  "strip s = rev (dropWhile isspace (rev (dropWhile isspace s)))"

definition digit :: "char \<Rightarrow> nat option" where
  "digit c =
     (let n = (of_char c :: nat)
      in if 48 \<le> n \<and> n \<le> 57 then Some (n - 48) else None)"

fun digits :: "string \<Rightarrow> nat \<Rightarrow> nat option" where
  "digits [] acc = Some acc"
| "digits (c # cs) acc =
     (case digit c of
        Some d \<Rightarrow> digits cs (10 * acc + d)
      | None \<Rightarrow>
          if c = CHR ''_'' then
            (case cs of
               [] \<Rightarrow> None
             | c' # cs' \<Rightarrow>
                 (case digit c' of
                    Some d \<Rightarrow> digits cs' (10 * acc + d)
                  | None \<Rightarrow> None))
          else None)"

definition unsigned :: "string \<Rightarrow> nat option" where
  "unsigned s =
     (case s of
        [] \<Rightarrow> None
      | c # cs \<Rightarrow> (case digit c of None \<Rightarrow> None | Some d \<Rightarrow> digits cs d))"

definition int_of_str :: "string \<Rightarrow> pyerr + int" where
  "int_of_str s =
     (let t = strip s;
          neg = (case t of [] \<Rightarrow> False | c # _ \<Rightarrow> c = CHR ''-'');
          body = (case t of
                    [] \<Rightarrow> []
                  | c # cs \<Rightarrow> if c = CHR ''-'' \<or> c = CHR ''+'' then cs else t)
      in case unsigned body of
           None \<Rightarrow> Inl ValueError
         | Some n \<Rightarrow> Inr (if neg then - int n else int n))"

text \<open>\<^verbatim>\<open>[int(x) for x in xs]\<close>: the first field that does not parse raises.\<close>

fun ints_of :: "string list \<Rightarrow> pyerr + int list" where
  "ints_of [] = Inr []"
| "ints_of (x # xs) =
     (case int_of_str x of
        Inl e \<Rightarrow> Inl e
      | Inr v \<Rightarrow> (case ints_of xs of Inl e \<Rightarrow> Inl e | Inr vs \<Rightarrow> Inr (v # vs)))"

text \<open>\<^verbatim>\<open>str(n)\<close> for an integer, as an f-string formats it.\<close>

fun str_nat :: "nat \<Rightarrow> string" where
  "str_nat n =
     (if n < 10 then [''0123456789'' ! n]
      else str_nat (n div 10) @ [''0123456789'' ! (n mod 10)])"

declare str_nat.simps [simp del]

definition str_int :: "int \<Rightarrow> string" where
  "str_int i = (if i < 0 then CHR ''-'' # str_nat (nat (- i)) else str_nat (nat i))"

subsection \<open>send\_command\<close>

text \<open>
  The value of the \<^verbatim>\<open>try\<close> block for one outcome: the sentinel on a timeout, the
  decoded text after \<^verbatim>\<open>.rstrip("\x00").rstrip("\x19")\<close>, or the decoding error,
  which \<^verbatim>\<open>except socket.timeout\<close> does not catch.
\<close>

definition reply :: "outcome \<Rightarrow> pyerr + string" where
  "reply out =
     (case out of
        Timeout \<Rightarrow> Inr ''TIMEOUT''
      | Received data \<Rightarrow> Inr (rstrip (CHR 0x19) (rstrip (CHR 0x00) data))
      | Undecodable \<Rightarrow> Inl UnicodeDecodeError)"

definition send_command :: "string \<Rightarrow> net \<Rightarrow> (pyerr + string) \<times> net" where
  "send_command command w = (case exchange command w of (out, w') \<Rightarrow> (reply out, w'))"

text \<open>
  Sequencing of two steps that may raise, and the common opening of every query:
  \<^verbatim>\<open>r = self.send_command(command).split(",")\<close> followed by the decoding of \<open>r\<close>,
  which touches the network no more.
\<close>

definition andthen :: "pyerr + 'a \<Rightarrow> ('a \<Rightarrow> pyerr + 'b) \<Rightarrow> pyerr + 'b" where
  "andthen x f = (case x of Inl e \<Rightarrow> Inl e | Inr v \<Rightarrow> f v)"

definition on_reply :: "string \<Rightarrow> (string list \<Rightarrow> pyerr + 'a) \<Rightarrow> net \<Rightarrow> (pyerr + 'a) \<times> net" where
  "on_reply command f w =
     (case send_command command w of
        (Inl e, w') \<Rightarrow> (Inl e, w')
      | (Inr s, w') \<Rightarrow> (f (split (CHR '','') s), w'))"

subsection \<open>HeatappHub\<close>

text \<open>
  The hub-level queries read nothing of \<^verbatim>\<open>self\<close> but the socket, so they take the
  network only. A method that ends without \<^verbatim>\<open>return\<close> gives \<open>None\<close>.
\<close>

definition get_radiator_ids :: "net \<Rightarrow> (pyerr + int list) \<times> net" where
  "get_radiator_ids =
     on_reply ''OPS2/'' (\<lambda>response.
       andthen (item response 0) (\<lambda>t.
         if t = ''OPOK'' then ints_of (drop 2 response) else Inr []))"

definition get_radiators_per_zone :: "net \<Rightarrow> (pyerr + int list) \<times> net" where
  "get_radiators_per_zone =
     on_reply ''OPS3/'' (\<lambda>response.
       andthen (item response 0) (\<lambda>t.
         if t = ''OPOK'' then ints_of (drop 2 response) else Inr []))"

definition ready :: "net \<Rightarrow> (pyerr + bool) \<times> net" where
  "ready =
     on_reply ''OPS1/'' (\<lambda>response.
       andthen (item response 0) (\<lambda>t.
         if t = ''OPOK'' then Inr True else Inr False))"

record hub_fw =
  fw_firmware :: string
  fw_device_id :: string
  fw_idu :: string

definition get_fw :: "net \<Rightarrow> (pyerr + hub_fw option) \<times> net" where
  "get_fw =
     on_reply ''OPF/'' (\<lambda>r.
       andthen (item r 0) (\<lambda>t.
         if t = ''OPOK'' then
           andthen (item r 1) (\<lambda>r1.
           andthen (item r 2) (\<lambda>r2.
           andthen (item r 3) (\<lambda>r3.
           andthen (item r 3) (\<lambda>r3'.
             Inr (Some \<lparr>fw_firmware = r1, fw_device_id = r2 @ ''/'' @ r3, fw_idu = r3'\<rparr>)))))
         else Inr None))"

text \<open>\<^verbatim>\<open>f"{r[a]}.{r[b]}.{r[c]}.{r[d]}"\<close>: the four fields, read left to right.\<close>

definition dotted :: "string list \<Rightarrow> nat \<Rightarrow> nat \<Rightarrow> nat \<Rightarrow> nat \<Rightarrow> pyerr + string" where
  "dotted r a b c d =
     andthen (item r a) (\<lambda>ra.
     andthen (item r b) (\<lambda>rb.
     andthen (item r c) (\<lambda>rc.
     andthen (item r d) (\<lambda>rd.
       Inr (ra @ ''.'' @ rb @ ''.'' @ rc @ ''.'' @ rd)))))"

record hub_nw =
  ip :: string
  gateway :: string
  subnet :: string

definition get_nw :: "net \<Rightarrow> (pyerr + hub_nw option) \<times> net" where
  "get_nw =
     on_reply ''OPS38/'' (\<lambda>r.
       andthen (item r 0) (\<lambda>t.
         if t = ''OPOK'' then
           andthen (dotted r 2 3 4 5) (\<lambda>i.
           andthen (dotted r 6 7 8 9) (\<lambda>g.
           andthen (dotted r 10 11 12 13) (\<lambda>s.
             Inr (Some \<lparr>ip = i, gateway = g, subnet = s\<rparr>))))
         else Inr None))"

text \<open>
  \<^verbatim>\<open>datetime.datetime(year, month, day, hour, minute, second)\<close>: an argument that
  does not fit a C \<^verbatim>\<open>int\<close> is an OverflowError, a field out of its calendar range
  a ValueError.
\<close>

record datetime =
  year :: int
  month :: int
  day :: int
  hour :: int
  minute :: int
  second :: int

definition is_leap :: "int \<Rightarrow> bool" where
  "is_leap y = (y mod 4 = 0 \<and> (0 < y mod 100 \<or> y mod 400 = 0))"

definition days_in_month :: "int \<Rightarrow> int \<Rightarrow> int" where
  "days_in_month y m =
     (if m = 2 then (if is_leap y then 29 else 28)
      else if m = 4 \<or> m = 6 \<or> m = 9 \<or> m = 11 then 30 else 31)"

definition c_int :: "int \<Rightarrow> bool" where
  "c_int v = (- 2147483648 \<le> v \<and> v \<le> 2147483647)"

definition datetime_new :: "int \<Rightarrow> int \<Rightarrow> int \<Rightarrow> int \<Rightarrow> int \<Rightarrow> int \<Rightarrow> pyerr + datetime" where
  "datetime_new y mo d h mi s =
     (if \<not> (c_int y \<and> c_int mo \<and> c_int d \<and> c_int h \<and> c_int mi \<and> c_int s) then Inl OverflowError
      else if y < 1 \<or> 9999 < y then Inl ValueError
      else if mo < 1 \<or> 12 < mo then Inl ValueError
      else if d < 1 \<or> days_in_month y mo < d then Inl ValueError
      else if h < 0 \<or> 23 < h then Inl ValueError
      else if mi < 0 \<or> 59 < mi then Inl ValueError
      else if s < 0 \<or> 59 < s then Inl ValueError
      else Inr \<lparr>year = y, month = mo, day = d, hour = h, minute = mi, second = s\<rparr>)"

definition get_time :: "net \<Rightarrow> (pyerr + datetime option) \<times> net" where
  "get_time =
     on_reply ''OPH/'' (\<lambda>r.
       andthen (item r 0) (\<lambda>t.
         if t = ''OPOK'' then
           andthen (ints_of (drop 1 r)) (\<lambda>d.
           andthen (item d 6) (\<lambda>d6.
           andthen (item d 5) (\<lambda>d5.
           andthen (item d 4) (\<lambda>d4.
           andthen (item d 0) (\<lambda>d0.
           andthen (item d 1) (\<lambda>d1.
           andthen (item d 2) (\<lambda>d2.
           andthen (datetime_new (2000 + d6) d5 d4 d0 d1 d2) (\<lambda>dt.
             Inr (Some dt)))))))))
         else Inr None))"

record hub =
  host :: string
  port :: int
  firmware :: string
  device_id :: string
  idu :: string
  radiator_ids :: "int list"
  radiators_per_zone :: "int list"

definition HeatappHub_init :: "string \<Rightarrow> int \<Rightarrow> net \<Rightarrow> (pyerr + hub) \<times> net" where
  "HeatappHub_init h p w =
     (case get_fw w of
        (Inl e, w1) \<Rightarrow> (Inl e, w1)
      | (Inr None, w1) \<Rightarrow> (Inl ConnectionError, w1)
      | (Inr (Some fw), w1) \<Rightarrow>
          (case get_radiator_ids w1 of
             (Inl e, w2) \<Rightarrow> (Inl e, w2)
           | (Inr ids, w2) \<Rightarrow>
               (case get_radiators_per_zone w2 of
                  (Inl e, w3) \<Rightarrow> (Inl e, w3)
                | (Inr per_zone, w3) \<Rightarrow>
                    (Inr \<lparr>host = h, port = p,
                          firmware = fw_firmware fw,
                          device_id = fw_device_id fw,
                          idu = fw_idu fw,
                          radiator_ids = ids,
                          radiators_per_zone = per_zone\<rparr>, w3))))"

subsection \<open>HeatappRadiator\<close>

text \<open>
  The methods of a radiator read two attributes of \<^verbatim>\<open>self\<close>: \<^verbatim>\<open>_hub\<close> and
  \<^verbatim>\<open>rad_id\<close>. They take these two, so that \<^verbatim>\<open>__init__\<close> can call them before
  the other attributes exist.
\<close>

text \<open>
  \<^verbatim>\<open>self._hub.radiators_per_zone[self._hub.radiator_ids.index(self.rad_id)]\<close>
\<close>

definition rad_count :: "hub \<Rightarrow> int \<Rightarrow> pyerr + int" where
  "rad_count h rid =
     andthen (index (radiator_ids h) rid) (\<lambda>k. item (radiators_per_zone h) k)"

definition get_temperature :: "hub \<Rightarrow> int \<Rightarrow> net \<Rightarrow> (pyerr + (int \<times> int) option) \<times> net" where
  "get_temperature h rid =
     on_reply (''R#'' @ str_int rid @ ''#1#0#0*?T/'') (\<lambda>r.
       andthen (item r 0) (\<lambda>t.
         if t = ''OK'' then
           andthen (item r 1) (\<lambda>r1.
           andthen (int_of_str r1) (\<lambda>current.
           andthen (item r 2) (\<lambda>r2.
           andthen (int_of_str r2) (\<lambda>target.
             Inr (Some (current, target))))))
         else Inr None))"

text \<open>
  The loop of \<^verbatim>\<open>set_temperature\<close> over the units still to visit, with the running
  flag \<^verbatim>\<open>okay\<close>. The target is formatted into the command by the f-string; the
  model takes its text.
\<close>

fun set_temperature_loop :: "int \<Rightarrow> string \<Rightarrow> int list \<Rightarrow> bool \<Rightarrow> net \<Rightarrow> (pyerr + bool) \<times> net" where
  "set_temperature_loop rid target [] okay w = (Inr okay, w)"
| "set_temperature_loop rid target (i # units) okay w =
     (case on_reply (''D#'' @ str_int rid @ ''#'' @ str_int i @ ''#0#0*T'' @ target @ ''/'')
             (\<lambda>r. andthen (item r 0) (\<lambda>t. if t = ''OK'' then Inr True else Inr False)) w of
        (Inl e, w') \<Rightarrow> (Inl e, w')
      | (Inr okay', w') \<Rightarrow> set_temperature_loop rid target units okay' w')"

definition set_temperature :: "hub \<Rightarrow> int \<Rightarrow> string \<Rightarrow> net \<Rightarrow> (pyerr + bool) \<times> net" where
  "set_temperature h rid target w =
     (case rad_count h rid of
        Inl e \<Rightarrow> (Inl e, w)
      | Inr n \<Rightarrow> set_temperature_loop rid target [1..n] False w)"

text \<open>
  The float arithmetic that \<^verbatim>\<open>get_energy_usage\<close> uses, as parameters: the literal
  \<^verbatim>\<open>0.0\<close>, the true division of two integers and the product of an integer and a
  float (either raises OverflowError when an integer is too large for a float), and
  the sum of two floats.
\<close>

record 'f float_ops =
  fzero :: 'f
  ftruediv :: "int \<Rightarrow> int \<Rightarrow> pyerr + 'f"
  fmul :: "int \<Rightarrow> 'f \<Rightarrow> pyerr + 'f"
  fadd :: "'f \<Rightarrow> 'f \<Rightarrow> 'f"

text \<open>
  What one unit's answer does to \<^verbatim>\<open>total\<close> (here \<open>tot\<close>) and \<^verbatim>\<open>okay\<close> in the loop of
  \<^verbatim>\<open>get_energy_usage\<close>.
\<close>

definition energy_step :: "'f float_ops \<Rightarrow> 'f \<Rightarrow> string list \<Rightarrow> pyerr + ('f \<times> bool)" where
  "energy_step ops tot r =
     andthen (item r 0) (\<lambda>t.
       if t = ''OK'' then
         andthen (item r 1) (\<lambda>r1.
         andthen (int_of_str r1) (\<lambda>m.
         andthen (ftruediv ops m 10000) (\<lambda>multiplier.
         andthen (item r 2) (\<lambda>r2.
         andthen (int_of_str r2) (\<lambda>raw.
         andthen (fmul ops raw multiplier) (\<lambda>x.
           Inr (fadd ops tot x, True)))))))
       else Inr (tot, False))"

fun get_energy_usage_loop ::
  "'f float_ops \<Rightarrow> int \<Rightarrow> int list \<Rightarrow> 'f \<Rightarrow> bool \<Rightarrow> net \<Rightarrow> (pyerr + ('f \<times> bool)) \<times> net" where
  "get_energy_usage_loop ops rid [] tot okay w = (Inr (tot, okay), w)"
| "get_energy_usage_loop ops rid (i # units) tot okay w =
     (case on_reply (''R#'' @ str_int rid @ ''#'' @ str_int i @ ''#0#0*?UD/'')
             (energy_step ops tot) w of
        (Inl e, w') \<Rightarrow> (Inl e, w')
      | (Inr (tot', okay'), w') \<Rightarrow> get_energy_usage_loop ops rid units tot' okay' w')"

definition get_energy_usage :: "'f float_ops \<Rightarrow> hub \<Rightarrow> int \<Rightarrow> net \<Rightarrow> (pyerr + 'f option) \<times> net" where
  "get_energy_usage ops h rid w =
     (case rad_count h rid of
        Inl e \<Rightarrow> (Inl e, w)
      | Inr n \<Rightarrow>
          (case get_energy_usage_loop ops rid [1..n] (fzero ops) False w of
             (Inl e, w') \<Rightarrow> (Inl e, w')
           | (Inr (tot, okay), w') \<Rightarrow> (Inr (if okay then Some tot else None), w')))"

definition power_step :: "int \<Rightarrow> string list \<Rightarrow> pyerr + int" where
  "power_step tot r =
     andthen (item r 0) (\<lambda>t.
       if t = ''OK'' then
         andthen (item r 1) (\<lambda>r1.
         andthen (int_of_str r1) (\<lambda>v. Inr (tot + v)))
       else Inr tot)"

fun get_power_loop :: "int \<Rightarrow> int list \<Rightarrow> int \<Rightarrow> net \<Rightarrow> (pyerr + int) \<times> net" where
  "get_power_loop rid [] tot w = (Inr tot, w)"
| "get_power_loop rid (i # units) tot w =
     (case on_reply (''R#'' @ str_int rid @ ''#'' @ str_int i @ ''#0#0*?UD/'')
             (power_step tot) w of
        (Inl e, w') \<Rightarrow> (Inl e, w')
      | (Inr tot', w') \<Rightarrow> get_power_loop rid units tot' w')"

definition get_power :: "hub \<Rightarrow> int \<Rightarrow> net \<Rightarrow> (pyerr + int) \<times> net" where
  "get_power h rid w =
     (case rad_count h rid of
        Inl e \<Rightarrow> (Inl e, w)
      | Inr n \<Rightarrow> get_power_loop rid [1..n] 0 w)"

text \<open>\<^verbatim>\<open>HeatappRadiator.__get_fw\<close>: the two entries of the dictionary it returns.\<close>

definition radiator_get_fw :: "int \<Rightarrow> net \<Rightarrow> (pyerr + (string option \<times> string option)) \<times> net" where
  "radiator_get_fw rid =
     on_reply (''R#'' @ str_int rid @ ''#1#0#0*?F/'') (\<lambda>r.
       andthen (item r 0) (\<lambda>t.
         if t = ''OK'' then
           andthen (item r 1) (\<lambda>r1.
           andthen (item r 2) (\<lambda>r2.
             Inr (Some r1, Some r2)))
         else Inr (None, None)))"

record radiator =
  rad_id :: int
  rad_hub :: hub
  rad_firmware :: "string option"
  serial :: "string option"
  power :: int

definition HeatappRadiator_init :: "hub \<Rightarrow> int \<Rightarrow> net \<Rightarrow> (pyerr + radiator) \<times> net" where
  "HeatappRadiator_init h rid w =
     (case radiator_get_fw rid w of
        (Inl e, w1) \<Rightarrow> (Inl e, w1)
      | (Inr (f, s), w1) \<Rightarrow>
          (case get_power h rid w1 of
             (Inl e, w2) \<Rightarrow> (Inl e, w2)
           | (Inr p, w2) \<Rightarrow>
               (Inr \<lparr>rad_id = rid, rad_hub = h, rad_firmware = f, serial = s, power = p\<rparr>, w2)))"

subsection \<open>Notions used in the statements\<close>

text \<open>
  The outcome of the next exchange, the outcomes of the next \<open>k\<close> exchanges, and the
  network after \<open>k\<close> exchanges that sent the commands \<open>cs\<close>.
\<close>

definition next_outcome :: "net \<Rightarrow> outcome" where
  "next_outcome w = (case pending w of [] \<Rightarrow> Timeout | x # _ \<Rightarrow> x)"

definition outcomes :: "nat \<Rightarrow> net \<Rightarrow> outcome list" where
  "outcomes k w = take k (pending w @ replicate k Timeout)"

definition after :: "nat \<Rightarrow> string list \<Rightarrow> net \<Rightarrow> net" where
  "after k cs w = \<lparr>pending = drop k (pending w), sent = sent w @ cs\<rparr>"

text \<open>The status token of a response: its text up to the first comma.\<close>

definition status_token :: "string \<Rightarrow> string" where
  "status_token s = takeWhile (\<lambda>x. x \<noteq> CHR '','') s"

text \<open>The wire format of the per-unit commands.\<close>

definition set_command :: "int \<Rightarrow> string \<Rightarrow> int \<Rightarrow> string" where
  "set_command rid target i =
     ''D#'' @ str_int rid @ ''#'' @ str_int i @ ''#0#0*T'' @ target @ ''/''"

definition read_command :: "int \<Rightarrow> string \<Rightarrow> int \<Rightarrow> string" where
  "read_command rid field i =
     ''R#'' @ str_int rid @ ''#'' @ str_int i @ ''#0#0*?'' @ field @ ''/''"

text \<open>A network on which nothing has been sent yet and the given outcomes are to come.\<close>

definition fresh :: "outcome list \<Rightarrow> net" where
  "fresh outs = \<lparr>pending = outs, sent = []\<rparr>"

text \<open>
  The stripping as the specification words it: every trailing \<^verbatim>\<open>0x00\<close> and
  \<^verbatim>\<open>0x19\<close> byte is removed, in whatever order they stand.
\<close>

definition is_padding :: "char \<Rightarrow> bool" where
  "is_padding c = (c = CHR 0x00 \<or> c = CHR 0x19)"

definition strip_padding :: "string \<Rightarrow> string" where
  "strip_padding s = rev (dropWhile is_padding (rev s))"

text \<open>
  A hub with two zones for the examples: zone 7 is one unit, zone 9 is two units.
\<close>

definition zone_hub :: hub where
  "zone_hub =
     \<lparr>host = ''10.0.0.2'', port = 5000, firmware = ''1.0'', device_id = ''site/idu'',
      idu = ''idu'', radiator_ids = [7, 9], radiators_per_zone = [1, 2]\<rparr>"

text \<open>
  The energy reading that a unit's \<^verbatim>\<open>?UD\<close> response carries, in the
  specification's words: field 1 is the scaled multiplier, field 2 the raw reading,
  both integers, and the reading is \<open>raw_reading * (scaled_multiplier / 10000)\<close>.
  A response with fewer fields, with a field that is no integer, or with an integer too
  large for the float arithmetic carries none.
\<close>

definition unit_energy :: "'f float_ops \<Rightarrow> string \<Rightarrow> 'f option" where
  "unit_energy ops s =
     (case split (CHR '','') s of
        _ # scaled_multiplier # raw_reading # _ \<Rightarrow>
          (case (int_of_str scaled_multiplier, int_of_str raw_reading) of
             (Inr m, Inr raw) \<Rightarrow>
               (case ftruediv ops m 10000 of
                  Inr multiplier \<Rightarrow>
                    (case fmul ops raw multiplier of Inr x \<Rightarrow> Some x | Inl _ \<Rightarrow> None)
                | Inl _ \<Rightarrow> None)
           | _ \<Rightarrow> None)
      | _ \<Rightarrow> None)"

text \<open>The readings of the units that answered \<^verbatim>\<open>OK\<close>, in the order of the units.\<close>

definition ok_readings :: "'f float_ops \<Rightarrow> string list \<Rightarrow> 'f list" where
  "ok_readings ops rs =
     List.map_filter (\<lambda>r. if status_token r = ''OK'' then unit_energy ops r else None) rs"

text \<open>
  Exact arithmetic on the rationals in the place of the floats. Binary floating point
  agrees with it on every computation whose intermediate values it represents exactly,
  as in the specification's example (\<open>5000 / 10000 = 0.5\<close>, \<open>100 * 0.5\<close>,
  \<open>200 * 0.5\<close>, \<open>50 + 100\<close>).
\<close>

definition exact_ops :: "rat float_ops" where
  "exact_ops =
     \<lparr>fzero = 0,
      ftruediv = (\<lambda>a b. Inr (of_int a / of_int b)),
      fmul = (\<lambda>a x. Inr (of_int a * x)),
      fadd = (\<lambda>x y. x + y)\<rparr>"

text \<open>
  A hub-level query fails, in the specification's words, when the exchange times out or
  the status token of the response is not \<^verbatim>\<open>OPOK\<close>.
\<close>

definition hub_failure :: "outcome \<Rightarrow> bool" where
  "hub_failure out =
     (case out of
        Timeout \<Rightarrow> True
      | Received data \<Rightarrow> status_token (rstrip (CHR 0x19) (rstrip (CHR 0x00) data)) \<noteq> ''OPOK''
      | Undecodable \<Rightarrow> False)"

text \<open>
  The number of entries that the response to a topology query carries: its fields from
  index 2 on when the status token is \<^verbatim>\<open>OPOK\<close>, none otherwise.
\<close>

definition topology_count :: "string \<Rightarrow> nat" where
  "topology_count s =
     (if status_token s = ''OPOK'' then length (split (CHR '','') s) - 2 else 0)"

section \<open>Properties\<close>

subsection \<open>Evaluation and the library operations\<close>

lemmas run =
  send_command_def exchange_def reply_def on_reply_def andthen_def item_def rstrip_def
  int_of_str_def strip_def isspace_def unsigned_def digit_def fresh_def

lemma split_not_Nil: "split c s \<noteq> []"
  by (induction s) (auto split: list.splits)

lemma hd_split: "hd (split c s) = takeWhile (\<lambda>x. x \<noteq> c) s"
proof (induction s)
  case Nil
  show ?case by simp
next
  case (Cons x xs)
  then show ?case
    using split_not_Nil [of c xs] by (cases "split c xs") auto
qed

lemma item0_split: "item (split (CHR '','') s) 0 = Inr (status_token s)"
  using split_not_Nil [of "CHR '',''" s] hd_split [of "CHR '',''" s]
  by (cases "split (CHR '','') s") (auto simp: item_def status_token_def)

text \<open>
  C10. A response with the success token whose further fields are too few for the
  operation, or do not parse, makes the operation raise instead of giving
  \<open>None\<close>, \<open>False\<close> or \<open>[]\<close>: \<^verbatim>\<open>OPOK\<close> alone for \<^verbatim>\<open>OPF/\<close> and a short
  answer to \<^verbatim>\<open>OPS38/\<close> raise IndexError, a field that is no integer in the answer
  to \<^verbatim>\<open>OPS2/\<close> raises ValueError, and \<^verbatim>\<open>OK\<close> alone for a unit's \<^verbatim>\<open>?T\<close> read
  raises IndexError.
\<close>

theorem success_token_malformed_raises:
  "status_token ''OPOK'' = ''OPOK''
   \<and> fst (get_fw (fresh [Received ''OPOK''])) = Inl IndexError
   \<and> status_token ''OPOK,0,abc'' = ''OPOK''
   \<and> fst (get_radiator_ids (fresh [Received ''OPOK,0,abc''])) = Inl ValueError
   \<and> status_token ''OPOK,1,2'' = ''OPOK''
   \<and> fst (get_nw (fresh [Received ''OPOK,1,2''])) = Inl IndexError
   \<and> status_token ''OK'' = ''OK''
   \<and> fst (get_temperature h rid (fresh [Received ''OK''])) = Inl IndexError"
  by (simp add: status_token_def get_fw_def get_radiator_ids_def get_nw_def dotted_def
      get_temperature_def run)

subsection \<open>send\_command\<close>

lemma exchange_eq: "exchange c w = (next_outcome w, after 1 [c] w)"
  by (cases "pending w") (auto simp: exchange_def next_outcome_def after_def)

lemma send_command_eq: "send_command c w = (reply (next_outcome w), after 1 [c] w)"
  by (simp add: send_command_def exchange_eq)

lemma dropWhile_replicate_same:
  "dropWhile (\<lambda>x. x = c) (replicate k c @ xs) = dropWhile (\<lambda>x. x = c) xs"
  by (simp add: dropWhile_append)

lemma rstrip_replicate: "rstrip c (s @ replicate k c) = rstrip c s"
  by (simp add: rstrip_def dropWhile_replicate_same)

lemma rstrip_id: "s = [] \<or> last s \<noteq> c \<Longrightarrow> rstrip c s = s"
  by (cases s rule: rev_cases) (auto simp: rstrip_def)

lemma strip_padding_id: "s = [] \<or> \<not> is_padding (last s) \<Longrightarrow> strip_padding s = s"
  by (cases s rule: rev_cases) (auto simp: strip_padding_def)

lemma strip_padding_append:
  "list_all is_padding pad \<Longrightarrow> strip_padding (s @ pad) = strip_padding s"
  by (induction pad rule: rev_induct) (simp_all add: strip_padding_def)

lemma rstrip_two:
  assumes "p = [] \<or> \<not> is_padding (last p)"
  shows "rstrip (CHR 0x19) (rstrip (CHR 0x00) (p @ replicate a (CHR 0x19) @ replicate b (CHR 0x00))) = p"
proof -
  have "rstrip (CHR 0x00) (p @ replicate a (CHR 0x19) @ replicate b (CHR 0x00))
        = rstrip (CHR 0x00) (p @ replicate a (CHR 0x19))"
    using rstrip_replicate [of "CHR 0x00" "p @ replicate a (CHR 0x19)" b] by simp
  also have "\<dots> = p @ replicate a (CHR 0x19)"
  proof (rule rstrip_id)
    show "p @ replicate a (CHR 0x19) = [] \<or> last (p @ replicate a (CHR 0x19)) \<noteq> CHR 0x00"
      using assms by (cases a) (auto simp: is_padding_def)
  qed
  finally have "rstrip (CHR 0x19) (rstrip (CHR 0x00) (p @ replicate a (CHR 0x19) @ replicate b (CHR 0x00)))
        = rstrip (CHR 0x19) p"
    by (simp add: rstrip_replicate)
  also have "\<dots> = p"
    using assms by (intro rstrip_id) (auto simp: is_padding_def)
  finally show ?thesis .
qed

text \<open>
  The trailing run of \<^verbatim>\<open>0x00\<close> goes first and the run of \<^verbatim>\<open>0x19\<close> before it
  second; what is in front of the two runs stays, also when it ends in a padding byte:
  whatever the datagram, the text returned is the datagram without a run of
  \<^verbatim>\<open>0x19\<close> followed by a run of \<^verbatim>\<open>0x00\<close> at its end, and it does not end in
  \<^verbatim>\<open>0x19\<close>.
\<close>

lemma send_command_prefix:
  assumes "next_outcome w = Received d"
  shows "\<exists>t a b. send_command c w = (Inr t, after 1 [c] w)
           \<and> d = t @ replicate a (CHR 0x19) @ replicate b (CHR 0x00)
           \<and> (t = [] \<or> last t \<noteq> CHR 0x19)"
proof -
  define u where "u = rstrip (CHR 0x00) d"
  define t where "t = rstrip (CHR 0x19) u"
  have "d = u @ replicate (length (takeWhile (\<lambda>x. x = CHR 0x00) (rev d))) (CHR 0x00)"
  proof -
    have "rev d = takeWhile (\<lambda>x. x = CHR 0x00) (rev d) @ dropWhile (\<lambda>x. x = CHR 0x00) (rev d)"
      by simp
    moreover have "takeWhile (\<lambda>x. x = CHR 0x00) (rev d)
        = replicate (length (takeWhile (\<lambda>x. x = CHR 0x00) (rev d))) (CHR 0x00)"
      by (rule replicate_length_same [symmetric]) (auto dest: set_takeWhileD)
    ultimately have "rev (rev d) = rev (replicate (length (takeWhile (\<lambda>x. x = CHR 0x00) (rev d))) (CHR 0x00)
        @ dropWhile (\<lambda>x. x = CHR 0x00) (rev d))"
      by simp
    then show ?thesis by (simp add: u_def rstrip_def)
  qed
  then obtain b where d: "d = u @ replicate b (CHR 0x00)" ..
  have "u = t @ replicate (length (takeWhile (\<lambda>x. x = CHR 0x19) (rev u))) (CHR 0x19)"
  proof -
    have "rev u = takeWhile (\<lambda>x. x = CHR 0x19) (rev u) @ dropWhile (\<lambda>x. x = CHR 0x19) (rev u)"
      by simp
    moreover have "takeWhile (\<lambda>x. x = CHR 0x19) (rev u)
        = replicate (length (takeWhile (\<lambda>x. x = CHR 0x19) (rev u))) (CHR 0x19)"
      by (rule replicate_length_same [symmetric]) (auto dest: set_takeWhileD)
    ultimately have "rev (rev u) = rev (replicate (length (takeWhile (\<lambda>x. x = CHR 0x19) (rev u))) (CHR 0x19)
        @ dropWhile (\<lambda>x. x = CHR 0x19) (rev u))"
      by simp
    then show ?thesis by (simp add: t_def rstrip_def)
  qed
  then obtain a where u: "u = t @ replicate a (CHR 0x19)" ..
  have l: "t = [] \<or> last t \<noteq> CHR 0x19"
  proof (cases "dropWhile (\<lambda>x. x = CHR 0x19) (rev u)")
    case Nil
    then show ?thesis by (simp add: t_def rstrip_def)
  next
    case (Cons x xs)
    then have "x \<noteq> CHR 0x19"
      using hd_dropWhile [of "\<lambda>x. x = CHR 0x19" "rev u"] by auto
    with Cons show ?thesis by (simp add: t_def rstrip_def)
  qed
  have "send_command c w = (Inr t, after 1 [c] w)"
    using assms by (simp add: send_command_eq reply_def t_def u_def)
  moreover have "d = t @ replicate a (CHR 0x19) @ replicate b (CHR 0x00)"
    by (simp add: d u)
  ultimately show ?thesis using l by blast
qed

text \<open>
  C6, as the code has it. When the padding at the end of a received datagram is a run
  of \<^verbatim>\<open>0x19\<close> followed by a run of \<^verbatim>\<open>0x00\<close> (either may be empty),
  send\_command returns the decoded text without that padding and with everything in
  front of it untouched, which is what stripping every trailing padding byte gives.
\<close>

theorem send_command_strips_padding:
  assumes "next_outcome w = Received (p @ replicate a (CHR 0x19) @ replicate b (CHR 0x00))"
    and "p = [] \<or> \<not> is_padding (last p)"
  shows "send_command c w = (Inr p, after 1 [c] w)
         \<and> strip_padding (p @ replicate a (CHR 0x19) @ replicate b (CHR 0x00)) = p"
proof -
  have "list_all is_padding (replicate a (CHR 0x19) @ replicate b (CHR 0x00))"
    by (auto simp: list_all_iff is_padding_def)
  then have "strip_padding (p @ replicate a (CHR 0x19) @ replicate b (CHR 0x00)) = strip_padding p"
    by (rule strip_padding_append)
  then show ?thesis
    using assms by (simp add: send_command_eq reply_def rstrip_two strip_padding_id)
qed

theorem send_command_strips_padding_witness:
  "send_command ''OPS1/'' (fresh [Received (''OPOK,1'' @ [CHR 0x19, CHR 0x00, CHR 0x00])])
     = (Inr ''OPOK,1'', \<lparr>pending = [], sent = [''OPS1/'']\<rparr>)
   \<and> strip_padding (''OPOK,1'' @ [CHR 0x19, CHR 0x00, CHR 0x00]) = ''OPOK,1''"
  using send_command_strips_padding [of "fresh [Received (''OPOK,1'' @ [CHR 0x19, CHR 0x00, CHR 0x00])]"
      "''OPOK,1''" 1 2 "''OPS1/''"]
  by (simp add: next_outcome_def fresh_def after_def is_padding_def numeral_2_eq_2)

text \<open>
  C6 as stated fails when a \<^verbatim>\<open>0x00\<close> stands before a \<^verbatim>\<open>0x19\<close> in the padding:
  the \<^verbatim>\<open>0x00\<close> survives.
\<close>

theorem send_command_interleaved_padding_counterexample:
  "fst (send_command ''OPS1/'' (fresh [Received (''OPOK'' @ [CHR 0x00, CHR 0x19])]))
     = Inr (''OPOK'' @ [CHR 0x00])
   \<and> strip_padding (''OPOK'' @ [CHR 0x00, CHR 0x19]) = ''OPOK''
   \<and> fst (send_command ''OPS1/'' (fresh [Received (''OPOK'' @ [CHR 0x00, CHR 0x19])]))
     \<noteq> Inr (strip_padding (''OPOK'' @ [CHR 0x00, CHR 0x19]))"
  by (simp add: strip_padding_def is_padding_def run)

subsection \<open>One exchange, and the exchanges of a loop\<close>

lemma on_reply_eq:
  "on_reply c f w =
     (case reply (next_outcome w) of
        Inl e \<Rightarrow> (Inl e, after 1 [c] w)
      | Inr s \<Rightarrow> (f (split (CHR '','') s), after 1 [c] w))"
  by (simp add: on_reply_def send_command_eq split: sum.splits)

lemma take_replicate_Cons: "take j (x # replicate k x) = replicate (min j (Suc k)) x"
  using take_replicate [of j "Suc k" x] by simp

lemma outcomes_Suc: "outcomes (Suc k) w = next_outcome w # outcomes k (after 1 [c] w)"
  by (cases "pending w")
    (simp_all add: outcomes_def next_outcome_def after_def take_replicate_Cons min_def)

lemma after_after: "after k cs (after (Suc 0) [c] w) = after (Suc k) (c # cs) w"
  by (simp add: after_def drop_Suc drop_tl)

lemma after_0: "after 0 [] w = w"
  by (simp add: after_def)

lemma length_upto_1: "length [1..n] = nat n"
  by simp

subsection \<open>set\_temperature\<close>

lemma set_temperature_loop_last:
  "map reply (outcomes (length units) w) = map Inr rs \<Longrightarrow>
   set_temperature_loop rid target units okay w =
     (Inr (if units = [] then okay else status_token (last rs) = ''OK''),
      after (length units) (map (set_command rid target) units) w)"
proof (induction units arbitrary: okay w rs)
  case Nil
  show ?case by (simp add: after_0)
next
  case (Cons i units)
  from Cons.prems obtain r rs' where rs: "rs = r # rs'"
    and r: "reply (next_outcome w) = Inr r"
    and rest: "map reply (outcomes (length units) (after 1 [set_command rid target i] w)) = map Inr rs'"
    by (cases rs) (auto simp: outcomes_Suc [of _ _ "set_command rid target i"])
  have len: "length rs' = length units"
    using rest by (metis length_map length_take min.idem outcomes_def length_append length_replicate
        min.absorb2 le_add2)
  have step: "set_temperature_loop rid target (i # units) okay w =
      set_temperature_loop rid target units (status_token r = ''OK'')
        (after 1 [set_command rid target i] w)"
    using r by (simp add: on_reply_eq item0_split andthen_def set_command_def)
  show ?case
  proof (cases "units = []")
    case True
    with len have "rs' = []" by simp
    with True step rs show ?thesis by (simp add: after_def)
  next
    case False
    with len have "rs' \<noteq> []" by auto
    with False step rs Cons.IH [OF rest] show ?thesis
      by (simp add: after_after)
  qed
qed

text \<open>
  C1. For a zone of \<open>n \<ge> 1\<close> units whose \<open>n\<close> exchanges each give a response
  (\<open>rs\<close>, in the order of the units), set\_temperature sends the command
  \<^verbatim>\<open>D#{rad_id}#{i}#0#0*T{target}/\<close> for \<open>i = 1, \<dots>, n\<close>, in that order and nothing
  else, and returns whether the status token of the last response is \<^verbatim>\<open>OK\<close>; the
  responses of the earlier units do not enter the result.
\<close>

theorem set_temperature_last_unit:
  assumes "rad_count h rid = Inr n" and "1 \<le> n"
    and "map reply (outcomes (nat n) w) = map Inr rs"
  shows "set_temperature h rid target w =
           (Inr (status_token (last rs) = ''OK''),
            after (nat n) (map (set_command rid target) [1..n]) w)"
proof -
  have "[1..n] \<noteq> []" using assms(2) by simp
  moreover have "map reply (outcomes (length [1..n]) w) = map Inr rs"
    using assms(3) by simp
  ultimately show ?thesis
    using assms(1) set_temperature_loop_last [of "[1..n]" w rs rid target False]
    by (simp add: set_temperature_def)
qed

theorem set_temperature_last_unit_witness:
  "rad_count zone_hub 9 = Inr 2
   \<and> set_temperature zone_hub 9 ''21'' (fresh [Received ''OK'', Received ''ERR''])
       = (Inr False, \<lparr>pending = [], sent = [''D#9#1#0#0*T21/'', ''D#9#2#0#0*T21/'']\<rparr>)
   \<and> set_temperature zone_hub 9 ''21'' (fresh [Received ''ERR'', Received ''OK''])
       = (Inr True, \<lparr>pending = [], sent = [''D#9#1#0#0*T21/'', ''D#9#2#0#0*T21/'']\<rparr>)"
proof -
  have c: "rad_count zone_hub 9 = Inr 2"
    by (simp add: rad_count_def zone_hub_def andthen_def item_def)
  have a: "map reply (outcomes (nat 2) (fresh [Received ''OK'', Received ''ERR''])) = map Inr [''OK'', ''ERR'']"
    by (simp add: outcomes_def fresh_def reply_def rstrip_def)
  have b: "map reply (outcomes (nat 2) (fresh [Received ''ERR'', Received ''OK''])) = map Inr [''ERR'', ''OK'']"
    by (simp add: outcomes_def fresh_def reply_def rstrip_def)
  have u: "[1..2::int] = [1, 2]"
    by (simp add: upto.simps)
  show ?thesis
    using set_temperature_last_unit [OF c _ a, of "''21''"]
      set_temperature_last_unit [OF c _ b, of "''21''"] c
    by (simp add: u status_token_def after_def fresh_def set_command_def str_int_def str_nat.simps)
qed

subsection \<open>get\_energy\_usage\<close>

lemma energy_step_ok:
  assumes "status_token r = ''OK''" and "unit_energy ops r = Some x"
  shows "energy_step ops tot (split (CHR '','') r) = Inr (fadd ops tot x, True)"
proof -
  from assms(2) obtain a m raw rest where s: "split (CHR '','') r = a # m # raw # rest"
    by (auto simp: unit_energy_def split: list.splits)
  have "item (split (CHR '','') r) 0 = Inr ''OK''"
    using assms(1) by (simp add: item0_split)
  moreover have "item (split (CHR '','') r) 1 = Inr m" "item (split (CHR '','') r) 2 = Inr raw"
    by (simp_all add: s item_def)
  ultimately show ?thesis
    using assms(2)
    by (auto simp: energy_step_def unit_energy_def s andthen_def split: sum.splits)
qed

lemma energy_step_failed:
  "status_token r \<noteq> ''OK'' \<Longrightarrow> energy_step ops tot (split (CHR '','') r) = Inr (tot, False)"
  by (simp add: energy_step_def item0_split andthen_def)

lemma ok_readings_Cons:
  "ok_readings ops (r # rs) =
     (if status_token r = ''OK''
      then (case unit_energy ops r of None \<Rightarrow> ok_readings ops rs | Some x \<Rightarrow> x # ok_readings ops rs)
      else ok_readings ops rs)"
  by (simp add: ok_readings_def map_filter_simps split: option.splits)

lemma get_energy_usage_loop_sum:
  "map reply (outcomes (length units) w) = map Inr rs \<Longrightarrow>
   \<forall>r\<in>set rs. status_token r = ''OK'' \<longrightarrow> unit_energy ops r \<noteq> None \<Longrightarrow>
   get_energy_usage_loop ops rid units tot okay w =
     (Inr (foldl (fadd ops) tot (ok_readings ops rs),
           if units = [] then okay else status_token (last rs) = ''OK''),
      after (length units) (map (read_command rid ''UD'') units) w)"
proof (induction units arbitrary: tot okay w rs)
  case Nil
  then have "rs = []" by (simp add: outcomes_def)
  then show ?case by (simp add: after_0 ok_readings_def map_filter_simps)
next
  case (Cons i units)
  from Cons.prems(1) obtain r rs' where rs: "rs = r # rs'"
    and r: "reply (next_outcome w) = Inr r"
    and rest: "map reply (outcomes (length units) (after 1 [read_command rid ''UD'' i] w)) = map Inr rs'"
    by (cases rs) (auto simp: outcomes_Suc [of _ _ "read_command rid ''UD'' i"])
  have len: "length rs' = length units"
    using arg_cong [OF rest, of length] by (simp add: outcomes_def)
  have wf: "\<forall>r\<in>set rs'. status_token r = ''OK'' \<longrightarrow> unit_energy ops r \<noteq> None"
    using Cons.prems(2) rs by simp
  define tot' where "tot' = foldl (fadd ops) tot (ok_readings ops [r])"
  have step: "energy_step ops tot (split (CHR '','') r) = Inr (tot', status_token r = ''OK'')"
  proof (cases "status_token r = ''OK''")
    case True
    with Cons.prems(2) rs obtain x where x: "unit_energy ops r = Some x" by auto
    with True show ?thesis
      by (simp add: energy_step_ok tot'_def ok_readings_Cons ok_readings_def map_filter_simps)
  next
    case False
    then show ?thesis
      by (simp add: energy_step_failed tot'_def ok_readings_Cons ok_readings_def map_filter_simps)
  qed
  have unfold: "get_energy_usage_loop ops rid (i # units) tot okay w =
      get_energy_usage_loop ops rid units tot' (status_token r = ''OK'')
        (after 1 [read_command rid ''UD'' i] w)"
    using r step by (simp add: on_reply_eq read_command_def)
  have sum: "foldl (fadd ops) tot (ok_readings ops rs) = foldl (fadd ops) tot' (ok_readings ops rs')"
    by (simp add: rs tot'_def ok_readings_def map_filter_simps split: option.splits)
  have fin: "(if units = [] then status_token r = ''OK'' else status_token (last rs') = ''OK'')
      = (status_token (last rs) = ''OK'')"
    using len rs by (cases "units = []") auto
  have "get_energy_usage_loop ops rid (i # units) tot okay w =
      (Inr (foldl (fadd ops) tot' (ok_readings ops rs'),
            if units = [] then status_token r = ''OK'' else status_token (last rs') = ''OK''),
       after (length units) (map (read_command rid ''UD'') units)
         (after 1 [read_command rid ''UD'' i] w))"
    using Cons.IH [OF rest wf, of tot' "status_token r = ''OK''"] by (simp only: unfold)
  also have "\<dots> = (Inr (foldl (fadd ops) tot (ok_readings ops rs), status_token (last rs) = ''OK''),
       after (length (i # units)) (map (read_command rid ''UD'') (i # units)) w)"
    by (simp only: fin sum) (simp add: after_after)
  finally show ?case by simp
qed

text \<open>
  C2. For a zone of \<open>n \<ge> 1\<close> units whose \<open>n\<close> exchanges each give a response
  (\<open>rs\<close>, in the order of the units) and whose responses with the status token
  \<^verbatim>\<open>OK\<close> each carry a reading, get\_energy\_usage sends the read
  \<^verbatim>\<open>R#{rad_id}#{i}#0#0*?UD/\<close> for \<open>i = 1, \<dots>, n\<close> and nothing else; when the status
  token of the last response is \<^verbatim>\<open>OK\<close> it returns the sum, started at \<open>0.0\<close>
  and taken in the order of the units, of the readings
  \<open>raw_reading * (scaled_multiplier / 10000)\<close> of exactly the units that answered
  \<^verbatim>\<open>OK\<close>, and otherwise it returns \<open>None\<close>.
\<close>

theorem get_energy_usage_sum:
  assumes "rad_count h rid = Inr n" and "1 \<le> n"
    and "map reply (outcomes (nat n) w) = map Inr rs"
    and "\<forall>r\<in>set rs. status_token r = ''OK'' \<longrightarrow> unit_energy ops r \<noteq> None"
  shows "get_energy_usage ops h rid w =
           (Inr (if status_token (last rs) = ''OK''
                 then Some (foldl (fadd ops) (fzero ops) (ok_readings ops rs))
                 else None),
            after (nat n) (map (read_command rid ''UD'') [1..n]) w)"
proof -
  have "[1..n] \<noteq> []" using assms(2) by simp
  moreover have "map reply (outcomes (length [1..n]) w) = map Inr rs"
    using assms(3) by simp
  ultimately show ?thesis
    using assms(1) get_energy_usage_loop_sum [of "[1..n]" w rs ops rid "fzero ops" False, OF _ assms(4)]
    by (simp add: get_energy_usage_def)
qed

theorem get_energy_usage_sum_witness:
  "rad_count zone_hub 9 = Inr 2
   \<and> unit_energy exact_ops ''OK,5000,100'' = Some 50
   \<and> unit_energy exact_ops ''OK,5000,200'' = Some 100
   \<and> get_energy_usage exact_ops zone_hub 9 (fresh [Received ''OK,5000,100'', Received ''OK,5000,200''])
       = (Inr (Some 150), \<lparr>pending = [], sent = [''R#9#1#0#0*?UD/'', ''R#9#2#0#0*?UD/'']\<rparr>)"
proof -
  have c: "rad_count zone_hub 9 = Inr 2"
    by (simp add: rad_count_def zone_hub_def andthen_def item_def)
  have a: "map reply (outcomes (nat 2) (fresh [Received ''OK,5000,100'', Received ''OK,5000,200'']))
      = map Inr [''OK,5000,100'', ''OK,5000,200'']"
    by (simp add: outcomes_def fresh_def reply_def rstrip_def)
  have e1: "unit_energy exact_ops ''OK,5000,100'' = Some 50"
    by (simp add: unit_energy_def exact_ops_def run)
  have e2: "unit_energy exact_ops ''OK,5000,200'' = Some 100"
    by (simp add: unit_energy_def exact_ops_def run)
  have s: "status_token ''OK,5000,100'' = ''OK''" "status_token ''OK,5000,200'' = ''OK''"
    by (simp_all add: status_token_def)
  have wf: "\<forall>r\<in>set [''OK,5000,100'', ''OK,5000,200'']. status_token r = ''OK'' \<longrightarrow> unit_energy exact_ops r \<noteq> None"
    using e1 e2 by simp
  have u: "[1..2::int] = [1, 2]"
    by (simp add: upto.simps)
  have f: "fzero exact_ops = 0" "fadd exact_ops = (\<lambda>x y. x + y)"
    by (simp_all add: exact_ops_def)
  show ?thesis
    using get_energy_usage_sum [OF c _ a wf] c e1 e2
    by (simp add: u s f ok_readings_def map_filter_simps after_def fresh_def read_command_def
        str_int_def str_nat.simps)
qed

subsection \<open>Hub construction\<close>

lemma reply_error: "reply out = Inl e \<Longrightarrow> e = UnicodeDecodeError"
  by (cases out) (auto simp: reply_def)

lemma hub_failure_iff:
  "hub_failure out \<longleftrightarrow> (\<exists>s. reply out = Inr s \<and> status_token s \<noteq> ''OPOK'')"
  by (cases out) (auto simp: hub_failure_def reply_def status_token_def)

lemma int_of_str_error: "int_of_str s = Inl e \<Longrightarrow> e = ValueError"
  by (auto simp: int_of_str_def Let_def split: option.splits)

lemma ints_of_error: "ints_of xs = Inl e \<Longrightarrow> e = ValueError"
  by (induction xs arbitrary: e) (auto split: sum.splits dest: int_of_str_error)

lemma ints_of_length: "ints_of xs = Inr vs \<Longrightarrow> length vs = length xs"
  by (induction xs arbitrary: vs) (auto split: sum.splits)

lemma snd_on_reply: "snd (on_reply c f w) = after 1 [c] w"
  by (simp add: on_reply_eq split: sum.splits)

lemma item_error: "item xs k = Inl e \<Longrightarrow> e = IndexError"
  by (simp add: item_def split: if_splits)

lemma get_fw_None_iff: "fst (get_fw w) = Inr None \<longleftrightarrow> hub_failure (next_outcome w)"
  by (auto simp: get_fw_def on_reply_eq hub_failure_iff item0_split andthen_def
      split: sum.splits)

lemma get_fw_not_ConnectionError: "fst (get_fw w) \<noteq> Inl ConnectionError"
  by (auto simp: get_fw_def on_reply_eq item0_split andthen_def
      split: sum.splits if_splits dest: reply_error item_error)

lemma get_radiator_ids_failure:
  "hub_failure (next_outcome w) \<Longrightarrow> get_radiator_ids w = (Inr [], after 1 [''OPS2/''] w)"
  by (auto simp: get_radiator_ids_def on_reply_eq hub_failure_iff item0_split andthen_def)

lemma get_radiators_per_zone_failure:
  "hub_failure (next_outcome w) \<Longrightarrow> get_radiators_per_zone w = (Inr [], after 1 [''OPS3/''] w)"
  by (auto simp: get_radiators_per_zone_def on_reply_eq hub_failure_iff item0_split andthen_def)

lemma get_radiator_ids_not_ConnectionError: "fst (get_radiator_ids w) \<noteq> Inl ConnectionError"
  by (auto simp: get_radiator_ids_def on_reply_eq item0_split andthen_def
      split: sum.splits dest: reply_error ints_of_error)

lemma get_radiators_per_zone_not_ConnectionError:
  "fst (get_radiators_per_zone w) \<noteq> Inl ConnectionError"
  by (auto simp: get_radiators_per_zone_def on_reply_eq item0_split andthen_def
      split: sum.splits dest: reply_error ints_of_error)

lemma topology_length:
  assumes "andthen (item (split (CHR '','') s) 0)
             (\<lambda>t. if t = ''OPOK'' then ints_of (drop 2 (split (CHR '','') s)) else Inr []) = Inr vs"
  shows "length vs = topology_count s"
proof (cases "status_token s = ''OPOK''")
  case True
  with assms have "ints_of (drop 2 (split (CHR '','') s)) = Inr vs"
    by (simp add: item0_split andthen_def)
  from ints_of_length [OF this] True show ?thesis
    by (simp add: topology_count_def)
next
  case False
  with assms show ?thesis
    by (simp add: item0_split andthen_def topology_count_def)
qed

lemma get_radiator_ids_length:
  assumes "fst (get_radiator_ids w) = Inr ids"
  shows "\<exists>s. reply (next_outcome w) = Inr s \<and> length ids = topology_count s"
proof (cases "reply (next_outcome w)")
  case (Inl e)
  with assms show ?thesis by (simp add: get_radiator_ids_def on_reply_eq)
next
  case (Inr s)
  with assms have "length ids = topology_count s"
    by (intro topology_length) (simp add: get_radiator_ids_def on_reply_eq)
  with Inr show ?thesis by simp
qed

lemma get_radiators_per_zone_length:
  assumes "fst (get_radiators_per_zone w) = Inr per_zone"
  shows "\<exists>s. reply (next_outcome w) = Inr s \<and> length per_zone = topology_count s"
proof (cases "reply (next_outcome w)")
  case (Inl e)
  with assms show ?thesis by (simp add: get_radiators_per_zone_def on_reply_eq)
next
  case (Inr s)
  with assms have "length per_zone = topology_count s"
    by (intro topology_length) (simp add: get_radiators_per_zone_def on_reply_eq)
  with Inr show ?thesis by simp
qed

lemma snd_get_fw: "snd (get_fw w) = after 1 [''OPF/''] w"
  by (simp add: get_fw_def snd_on_reply)

lemma snd_get_radiator_ids: "snd (get_radiator_ids w) = after 1 [''OPS2/''] w"
  by (simp add: get_radiator_ids_def snd_on_reply)

lemma snd_get_radiators_per_zone: "snd (get_radiators_per_zone w) = after 1 [''OPS3/''] w"
  by (simp add: get_radiators_per_zone_def snd_on_reply)

lemma after_1_after: "after (Suc 0) [c] (after k cs w) = after (Suc k) (cs @ [c]) w"
  by (simp add: after_def)

text \<open>The three steps of the constructor, with the network each of them meets.\<close>

lemma HeatappHub_init_steps:
  "HeatappHub_init h p w =
     (case fst (get_fw w) of
        Inl e \<Rightarrow> (Inl e, after 1 [''OPF/''] w)
      | Inr None \<Rightarrow> (Inl ConnectionError, after 1 [''OPF/''] w)
      | Inr (Some fw) \<Rightarrow>
          (case fst (get_radiator_ids (after 1 [''OPF/''] w)) of
             Inl e \<Rightarrow> (Inl e, after 2 [''OPF/'', ''OPS2/''] w)
           | Inr ids \<Rightarrow>
               (case fst (get_radiators_per_zone (after 2 [''OPF/'', ''OPS2/''] w)) of
                  Inl e \<Rightarrow> (Inl e, after 3 [''OPF/'', ''OPS2/'', ''OPS3/''] w)
                | Inr per_zone \<Rightarrow>
                    (Inr \<lparr>host = h, port = p,
                          firmware = fw_firmware fw,
                          device_id = fw_device_id fw,
                          idu = fw_idu fw,
                          radiator_ids = ids,
                          radiators_per_zone = per_zone\<rparr>,
                     after 3 [''OPF/'', ''OPS2/'', ''OPS3/''] w))))"
proof -
  obtain x1 w1 where g1: "get_fw w = (x1, w1)" by (cases "get_fw w")
  then have w1: "w1 = after 1 [''OPF/''] w" using snd_get_fw [of w] by simp
  obtain x2 w2 where g2: "get_radiator_ids w1 = (x2, w2)" by (cases "get_radiator_ids w1")
  then have w2: "w2 = after 2 [''OPF/'', ''OPS2/''] w"
    using snd_get_radiator_ids [of w1] by (simp add: w1 after_1_after numeral_2_eq_2)
  obtain x3 w3 where g3: "get_radiators_per_zone w2 = (x3, w3)"
    by (cases "get_radiators_per_zone w2")
  then have w3: "w3 = after 3 [''OPF/'', ''OPS2/'', ''OPS3/''] w"
    using snd_get_radiators_per_zone [of w2] by (simp add: w2 after_1_after numeral_3_eq_3)
  show ?thesis
    using g1 g2 g3 unfolding HeatappHub_init_def w1 [symmetric] w2 [symmetric] w3 [symmetric]
    by (simp split: sum.splits option.splits)
qed
text \<open>
  C8. The constructor raises ConnectionError exactly when the \<^verbatim>\<open>OPF/\<close> handshake
  fails, that is, when its exchange times out or the status token of its response is not
  \<^verbatim>\<open>OPOK\<close>. When the handshake has given the firmware details, a failure of the
  \<^verbatim>\<open>OPS2/\<close> query leaves \<open>radiator_ids\<close> empty and a failure of the
  \<^verbatim>\<open>OPS3/\<close> query leaves \<open>radiators_per_zone\<close> empty, and neither makes the
  constructor raise: with both failing the hub is built with both sequences empty, and
  with one failing the hub is built with whatever the other query returns.
\<close>

theorem hub_init_connection_error:
  "(fst (HeatappHub_init h p w) = Inl ConnectionError \<longleftrightarrow> hub_failure (next_outcome w))
   \<and> (fst (get_fw w) = Inr (Some fw)
        \<and> hub_failure (next_outcome (after 1 [''OPF/''] w))
        \<and> hub_failure (next_outcome (after 2 [''OPF/'', ''OPS2/''] w))
      \<longrightarrow> HeatappHub_init h p w =
            (Inr \<lparr>host = h, port = p, firmware = fw_firmware fw,
                  device_id = fw_device_id fw, idu = fw_idu fw,
                  radiator_ids = [], radiators_per_zone = []\<rparr>,
             after 3 [''OPF/'', ''OPS2/'', ''OPS3/''] w))
   \<and> (fst (get_fw w) = Inr (Some fw)
        \<and> hub_failure (next_outcome (after 1 [''OPF/''] w))
        \<and> fst (get_radiators_per_zone (after 2 [''OPF/'', ''OPS2/''] w)) = Inr per_zone
      \<longrightarrow> HeatappHub_init h p w =
            (Inr \<lparr>host = h, port = p, firmware = fw_firmware fw,
                  device_id = fw_device_id fw, idu = fw_idu fw,
                  radiator_ids = [], radiators_per_zone = per_zone\<rparr>,
             after 3 [''OPF/'', ''OPS2/'', ''OPS3/''] w))
   \<and> (fst (get_fw w) = Inr (Some fw)
        \<and> fst (get_radiator_ids (after 1 [''OPF/''] w)) = Inr ids
        \<and> hub_failure (next_outcome (after 2 [''OPF/'', ''OPS2/''] w))
      \<longrightarrow> HeatappHub_init h p w =
            (Inr \<lparr>host = h, port = p, firmware = fw_firmware fw,
                  device_id = fw_device_id fw, idu = fw_idu fw,
                  radiator_ids = ids, radiators_per_zone = []\<rparr>,
             after 3 [''OPF/'', ''OPS2/'', ''OPS3/''] w))"
proof (intro conjI impI)
  show "fst (HeatappHub_init h p w) = Inl ConnectionError \<longleftrightarrow> hub_failure (next_outcome w)"
  proof
    assume "fst (HeatappHub_init h p w) = Inl ConnectionError"
    then have "fst (get_fw w) = Inr None"
      using get_fw_not_ConnectionError [of w]
        get_radiator_ids_not_ConnectionError [of "after 1 [''OPF/''] w"]
        get_radiators_per_zone_not_ConnectionError [of "after 2 [''OPF/'', ''OPS2/''] w"]
      by (simp add: HeatappHub_init_steps split: sum.splits option.splits)
    then show "hub_failure (next_outcome w)" by (simp add: get_fw_None_iff)
  next
    assume "hub_failure (next_outcome w)"
    then have "fst (get_fw w) = Inr None" by (simp add: get_fw_None_iff)
    then show "fst (HeatappHub_init h p w) = Inl ConnectionError"
      by (simp add: HeatappHub_init_steps)
  qed
next
  assume "fst (get_fw w) = Inr (Some fw)
      \<and> hub_failure (next_outcome (after 1 [''OPF/''] w))
      \<and> hub_failure (next_outcome (after 2 [''OPF/'', ''OPS2/''] w))"
  then show "HeatappHub_init h p w =
      (Inr \<lparr>host = h, port = p, firmware = fw_firmware fw,
            device_id = fw_device_id fw, idu = fw_idu fw,
            radiator_ids = [], radiators_per_zone = []\<rparr>,
       after 3 [''OPF/'', ''OPS2/'', ''OPS3/''] w)"
    by (simp add: HeatappHub_init_steps get_radiator_ids_failure get_radiators_per_zone_failure)
next
  assume "fst (get_fw w) = Inr (Some fw)
      \<and> hub_failure (next_outcome (after 1 [''OPF/''] w))
      \<and> fst (get_radiators_per_zone (after 2 [''OPF/'', ''OPS2/''] w)) = Inr per_zone"
  then show "HeatappHub_init h p w =
      (Inr \<lparr>host = h, port = p, firmware = fw_firmware fw,
            device_id = fw_device_id fw, idu = fw_idu fw,
            radiator_ids = [], radiators_per_zone = per_zone\<rparr>,
       after 3 [''OPF/'', ''OPS2/'', ''OPS3/''] w)"
    by (simp add: HeatappHub_init_steps get_radiator_ids_failure)
next
  assume "fst (get_fw w) = Inr (Some fw)
      \<and> fst (get_radiator_ids (after 1 [''OPF/''] w)) = Inr ids
      \<and> hub_failure (next_outcome (after 2 [''OPF/'', ''OPS2/''] w))"
  then show "HeatappHub_init h p w =
      (Inr \<lparr>host = h, port = p, firmware = fw_firmware fw,
            device_id = fw_device_id fw, idu = fw_idu fw,
            radiator_ids = ids, radiators_per_zone = []\<rparr>,
       after 3 [''OPF/'', ''OPS2/'', ''OPS3/''] w)"
    by (simp add: HeatappHub_init_steps get_radiators_per_zone_failure)
qed

theorem hub_init_connection_error_witness:
  "fst (HeatappHub_init ''10.0.0.2'' 5000 (fresh [Timeout])) = Inl ConnectionError
   \<and> fst (HeatappHub_init ''10.0.0.2'' 5000 (fresh [Received ''ERR''])) = Inl ConnectionError
   \<and> fst (HeatappHub_init ''10.0.0.2'' 5000 (fresh [Received ''OPOK'']))
       = Inl IndexError
   \<and> HeatappHub_init ''10.0.0.2'' 5000 (fresh [Received ''OPOK,1.0,site,idu'', Timeout, Received ''ERR''])
       = (Inr \<lparr>host = ''10.0.0.2'', port = 5000, firmware = ''1.0'',
               device_id = ''site/idu'', idu = ''idu'',
               radiator_ids = [], radiators_per_zone = []\<rparr>,
          \<lparr>pending = [], sent = [''OPF/'', ''OPS2/'', ''OPS3/'']\<rparr>)
   \<and> HeatappHub_init ''10.0.0.2'' 5000
         (fresh [Received ''OPOK,1.0,site,idu'', Timeout, Received ''OPOK,0,1,2''])
       = (Inr \<lparr>host = ''10.0.0.2'', port = 5000, firmware = ''1.0'',
               device_id = ''site/idu'', idu = ''idu'',
               radiator_ids = [], radiators_per_zone = [1, 2]\<rparr>,
          \<lparr>pending = [], sent = [''OPF/'', ''OPS2/'', ''OPS3/'']\<rparr>)
   \<and> HeatappHub_init ''10.0.0.2'' 5000
         (fresh [Received ''OPOK,1.0,site,idu'', Received ''OPOK,0,7,9'', Received ''ERR''])
       = (Inr \<lparr>host = ''10.0.0.2'', port = 5000, firmware = ''1.0'',
               device_id = ''site/idu'', idu = ''idu'',
               radiator_ids = [7, 9], radiators_per_zone = []\<rparr>,
          \<lparr>pending = [], sent = [''OPF/'', ''OPS2/'', ''OPS3/'']\<rparr>)"
proof -
  let ?fw = "\<lparr>fw_firmware = ''1.0'', fw_device_id = ''site/idu'', fw_idu = ''idu''\<rparr>"
  let ?ok = "Received ''OPOK,1.0,site,idu''"
  have f: "hub_failure Timeout" "hub_failure (Received ''ERR'')"
      "\<not> hub_failure (Received ''OPOK'')"
    by (simp_all add: hub_failure_def status_token_def rstrip_def)
  have g: "\<And>a b. fst (get_fw (fresh [?ok, a, b])) = Inr (Some ?fw)"
    by (simp add: get_fw_def run)
  have z: "fst (get_radiators_per_zone
        (after 2 [''OPF/'', ''OPS2/''] (fresh [?ok, Timeout, Received ''OPOK,0,1,2'']))) = Inr [1, 2]"
    by (simp add: get_radiators_per_zone_def after_def run)
  have i: "fst (get_radiator_ids
        (after 1 [''OPF/''] (fresh [?ok, Received ''OPOK,0,7,9'', Received ''ERR'']))) = Inr [7, 9]"
    by (simp add: get_radiator_ids_def after_def run)
  have e: "fst (HeatappHub_init ''10.0.0.2'' 5000 (fresh [Received ''OPOK''])) = Inl IndexError"
    by (simp add: HeatappHub_init_def get_fw_def run)
  note t = hub_init_connection_error [of "''10.0.0.2''" 5000]
  show ?thesis
    using t [of "fresh [Timeout]"] t [of "fresh [Received ''ERR'']"]
      t [of "fresh [Received ''OPOK'']"]
      t [of "fresh [?ok, Timeout, Received ''ERR'']" ?fw]
      t [of "fresh [?ok, Timeout, Received ''OPOK,0,1,2'']" ?fw "[1, 2]"]
      t [of "fresh [?ok, Received ''OPOK,0,7,9'', Received ''ERR'']" ?fw _ "[7, 9]"]
      f g z i e
    by (simp add: next_outcome_def after_def fresh_def)
qed

text \<open>
  C3, as the code has it. The two sequences are filled by two independent queries and
  nothing compares them: after a construction that returns a hub, \<open>radiator_ids\<close> has
  as many entries as the response to \<^verbatim>\<open>OPS2/\<close> carries and \<open>radiators_per_zone\<close>
  as many as the response to \<^verbatim>\<open>OPS3/\<close> carries (none for a failed query), so the
  two lengths are equal exactly when these two counts are: when both queries fail, or
  both succeed with the same number of fields.
\<close>

theorem hub_init_topology_lengths:
  assumes "HeatappHub_init h p w = (Inr hub, w')"
  shows "\<exists>s2 s3. reply (next_outcome (after 1 [''OPF/''] w)) = Inr s2
           \<and> reply (next_outcome (after 2 [''OPF/'', ''OPS2/''] w)) = Inr s3
           \<and> length (radiator_ids hub) = topology_count s2
           \<and> length (radiators_per_zone hub) = topology_count s3
           \<and> (length (radiator_ids hub) = length (radiators_per_zone hub)
                \<longleftrightarrow> topology_count s2 = topology_count s3)"
proof -
  from assms obtain fw ids per_zone
    where ids: "fst (get_radiator_ids (after 1 [''OPF/''] w)) = Inr ids"
      and pz: "fst (get_radiators_per_zone (after 2 [''OPF/'', ''OPS2/''] w)) = Inr per_zone"
      and hub: "radiator_ids hub = ids" "radiators_per_zone hub = per_zone"
    by (auto simp: HeatappHub_init_steps split: sum.splits option.splits)
  from get_radiator_ids_length [OF ids] obtain s2
    where s2: "reply (next_outcome (after 1 [''OPF/''] w)) = Inr s2" "length ids = topology_count s2"
    by blast
  from get_radiators_per_zone_length [OF pz] obtain s3
    where s3: "reply (next_outcome (after 2 [''OPF/'', ''OPS2/''] w)) = Inr s3"
      "length per_zone = topology_count s3"
    by blast
  from s2 s3 hub show ?thesis by simp
qed

theorem hub_init_topology_lengths_witness:
  "HeatappHub_init ''10.0.0.2'' 5000
     (fresh [Received ''OPOK,1.0,site,idu'', Received ''OPOK,0,7,9'', Received ''OPOK,0,1,2''])
     = (Inr \<lparr>host = ''10.0.0.2'', port = 5000, firmware = ''1.0'',
             device_id = ''site/idu'', idu = ''idu'',
             radiator_ids = [7, 9], radiators_per_zone = [1, 2]\<rparr>,
        \<lparr>pending = [], sent = [''OPF/'', ''OPS2/'', ''OPS3/'']\<rparr>)
   \<and> topology_count ''OPOK,0,7,9'' = 2 \<and> topology_count ''OPOK,0,1,2'' = 2
   \<and> (\<exists>s2 s3. Inr ''OPOK,0,7,9'' = (Inr s2 :: pyerr + string)
          \<and> Inr ''OPOK,0,1,2'' = (Inr s3 :: pyerr + string)
          \<and> length [7, 9 :: int] = topology_count s2
          \<and> length [1, 2 :: int] = topology_count s3)"
proof -
  let ?w = "fresh [Received ''OPOK,1.0,site,idu'', Received ''OPOK,0,7,9'', Received ''OPOK,0,1,2'']"
  have i: "HeatappHub_init ''10.0.0.2'' 5000 ?w
     = (Inr \<lparr>host = ''10.0.0.2'', port = 5000, firmware = ''1.0'',
             device_id = ''site/idu'', idu = ''idu'',
             radiator_ids = [7, 9], radiators_per_zone = [1, 2]\<rparr>,
        \<lparr>pending = [], sent = [''OPF/'', ''OPS2/'', ''OPS3/'']\<rparr>)"
    by (simp add: HeatappHub_init_def get_fw_def get_radiator_ids_def get_radiators_per_zone_def run)
  have c: "topology_count ''OPOK,0,7,9'' = 2" "topology_count ''OPOK,0,1,2'' = 2"
    by (simp_all add: topology_count_def status_token_def)
  have r: "reply (next_outcome (after 1 [''OPF/''] ?w)) = Inr ''OPOK,0,7,9''"
      "reply (next_outcome (after 2 [''OPF/'', ''OPS2/''] ?w)) = Inr ''OPOK,0,1,2''"
    by (simp_all add: next_outcome_def after_def fresh_def reply_def rstrip_def)
  show ?thesis
    using hub_init_topology_lengths [OF i] i c by (simp add: r)
qed

text \<open>
  C3 as stated fails: when \<^verbatim>\<open>OPS2/\<close> succeeds and \<^verbatim>\<open>OPS3/\<close> times out the
  hub has two radiator ids and no unit count, and when both succeed with different
  numbers of fields the hub keeps both as they came.
\<close>

theorem hub_init_topology_lengths_counterexample:
  "map_sum id (\<lambda>hub. (radiator_ids hub, radiators_per_zone hub))
     (fst (HeatappHub_init ''10.0.0.2'' 5000
        (fresh [Received ''OPOK,1.0,site,idu'', Received ''OPOK,0,7,9'', Timeout])))
     = Inr ([7, 9], [])
   \<and> length [7, 9 :: int] \<noteq> length ([] :: int list)
   \<and> map_sum id (\<lambda>hub. (radiator_ids hub, radiators_per_zone hub))
     (fst (HeatappHub_init ''10.0.0.2'' 5000
        (fresh [Received ''OPOK,1.0,site,idu'', Received ''OPOK,0,7,9'', Received ''OPOK,0,1''])))
     = Inr ([7, 9], [1])
   \<and> length [7, 9 :: int] \<noteq> length [1 :: int]"
  by (simp add: HeatappHub_init_def get_fw_def get_radiator_ids_def get_radiators_per_zone_def run)

subsection \<open>get\_time\<close>

lemma days_in_month_le: "days_in_month y m \<le> 31"
  by (simp add: days_in_month_def)

lemma datetime_new_valid:
  assumes "1 \<le> y" "y \<le> 9999" "1 \<le> mo" "mo \<le> 12" "1 \<le> d" "d \<le> days_in_month y mo"
    "0 \<le> h" "h \<le> 23" "0 \<le> mi" "mi \<le> 59" "0 \<le> s" "s \<le> 59"
  shows "datetime_new y mo d h mi s =
           Inr \<lparr>year = y, month = mo, day = d, hour = h, minute = mi, second = s\<rparr>"
proof -
  have "d \<le> 31" using assms(6) days_in_month_le [of y mo] by linarith
  with assms have "c_int y \<and> c_int mo \<and> c_int d \<and> c_int h \<and> c_int mi \<and> c_int s"
    by (simp add: c_int_def)
  with assms show ?thesis by (simp add: datetime_new_def)
qed

text \<open>
  C5, as the code has it. The constructor of the timestamp reads the fields after the
  status token at the positions 0, 1, 2 (hour, minute, second) and 4, 5, 6 (day, month,
  year offset); the field at position 3 is the one it does not use. For a response
  \<^verbatim>\<open>OPOK\<close> whose fields after the status token are integers, in the order hour,
  minute, second, unused, day, month, year offset (more may follow), get\_time returns
  what \<^verbatim>\<open>datetime(2000 + year_offset, month, day, hour, minute, second)\<close> gives:
  that timestamp when the six values form a date and a time, an exception otherwise.
\<close>

theorem get_time_fields:
  assumes "reply (next_outcome w) = Inr s"
    and "split (CHR '','') s = ''OPOK'' # fs"
    and "ints_of fs = Inr (hh # mi # ss # unused # dd # mo # yo # rest)"
  shows "get_time w =
           (map_sum id Some (datetime_new (2000 + yo) mo dd hh mi ss), after 1 [''OPH/''] w)
         \<and> (1 \<le> 2000 + yo \<and> 2000 + yo \<le> 9999 \<and> 1 \<le> mo \<and> mo \<le> 12
              \<and> 1 \<le> dd \<and> dd \<le> days_in_month (2000 + yo) mo
              \<and> 0 \<le> hh \<and> hh \<le> 23 \<and> 0 \<le> mi \<and> mi \<le> 59 \<and> 0 \<le> ss \<and> ss \<le> 59
            \<longrightarrow> fst (get_time w) =
                  Inr (Some \<lparr>year = 2000 + yo, month = mo, day = dd,
                             hour = hh, minute = mi, second = ss\<rparr>))"
proof -
  have g: "get_time w =
      (map_sum id Some (datetime_new (2000 + yo) mo dd hh mi ss), after 1 [''OPH/''] w)"
    using assms(1)
    by (cases "datetime_new (2000 + yo) mo dd hh mi ss")
      (simp_all add: get_time_def on_reply_eq andthen_def assms(2,3) item_def)
  show ?thesis
  proof (intro conjI impI)
    show "get_time w =
        (map_sum id Some (datetime_new (2000 + yo) mo dd hh mi ss), after 1 [''OPH/''] w)"
      by (rule g)
  next
    assume "1 \<le> 2000 + yo \<and> 2000 + yo \<le> 9999 \<and> 1 \<le> mo \<and> mo \<le> 12
        \<and> 1 \<le> dd \<and> dd \<le> days_in_month (2000 + yo) mo
        \<and> 0 \<le> hh \<and> hh \<le> 23 \<and> 0 \<le> mi \<and> mi \<le> 59 \<and> 0 \<le> ss \<and> ss \<le> 59"
    then have "datetime_new (2000 + yo) mo dd hh mi ss =
        Inr \<lparr>year = 2000 + yo, month = mo, day = dd, hour = hh, minute = mi, second = ss\<rparr>"
      by (intro datetime_new_valid) simp_all
    then show "fst (get_time w) =
        Inr (Some \<lparr>year = 2000 + yo, month = mo, day = dd,
                   hour = hh, minute = mi, second = ss\<rparr>)"
      by (simp add: g)
  qed
qed

theorem get_time_fields_witness:
  "split (CHR '','') ''OPOK,10,20,30,3,15,6,24'' = ''OPOK'' # [''10'', ''20'', ''30'', ''3'', ''15'', ''6'', ''24'']
   \<and> ints_of [''10'', ''20'', ''30'', ''3'', ''15'', ''6'', ''24''] = Inr [10, 20, 30, 3, 15, 6, 24]
   \<and> get_time (fresh [Received ''OPOK,10,20,30,3,15,6,24''])
       = (Inr (Some \<lparr>year = 2024, month = 6, day = 15, hour = 10, minute = 20, second = 30\<rparr>),
          \<lparr>pending = [], sent = [''OPH/'']\<rparr>)"
proof -
  have r: "reply (next_outcome (fresh [Received ''OPOK,10,20,30,3,15,6,24''])) = Inr ''OPOK,10,20,30,3,15,6,24''"
    by (simp add: next_outcome_def fresh_def reply_def rstrip_def)
  have s: "split (CHR '','') ''OPOK,10,20,30,3,15,6,24'' = ''OPOK'' # [''10'', ''20'', ''30'', ''3'', ''15'', ''6'', ''24'']"
    by simp
  have i: "ints_of [''10'', ''20'', ''30'', ''3'', ''15'', ''6'', ''24''] = Inr [10, 20, 30, 3, 15, 6, 24]"
    by (simp add: run)
  have d: "datetime_new 2024 6 15 10 20 30
      = Inr \<lparr>year = 2024, month = 6, day = 15, hour = 10, minute = 20, second = 30\<rparr>"
    by (simp add: datetime_new_def c_int_def days_in_month_def)
  show ?thesis
    using get_time_fields [OF r s i] s i d
    by (simp add: after_def fresh_def)
qed

text \<open>
  C5 as stated fails: with the fields in the order hour, minute, second, day, month,
  year offset, weekday, the code takes the weekday for the year offset, the year offset
  for the month and the month for the day. For 10:20:30 on 15 June 2012, weekday 3, it
  returns 6 December 2003; for the same in 2024 the month would be 24 and the
  constructor of the timestamp raises.
\<close>

theorem get_time_field_order_counterexample:
  "fst (get_time (fresh [Received ''OPOK,10,20,30,15,6,12,3'']))
     = Inr (Some \<lparr>year = 2003, month = 12, day = 6, hour = 10, minute = 20, second = 30\<rparr>)
   \<and> fst (get_time (fresh [Received ''OPOK,10,20,30,15,6,12,3'']))
     \<noteq> Inr (Some \<lparr>year = 2012, month = 6, day = 15, hour = 10, minute = 20, second = 30\<rparr>)
   \<and> fst (get_time (fresh [Received ''OPOK,10,20,30,15,6,24,3''])) = Inl ValueError"
  by (simp add: get_time_def datetime_new_def c_int_def days_in_month_def run)

subsection \<open>Radiator construction\<close>

lemma index_absent: "v \<notin> set xs \<Longrightarrow> index xs v = Inl ValueError"
  by (induction xs) auto

lemma index_present: "index xs v = Inr k \<Longrightarrow> v \<in> set xs"
  by (induction xs arbitrary: k) (auto split: if_splits sum.splits)

lemma rad_count_absent: "rid \<notin> set (radiator_ids h) \<Longrightarrow> rad_count h rid = Inl ValueError"
  by (simp add: rad_count_def index_absent andthen_def)

lemma rad_count_member: "rad_count h rid = Inr n \<Longrightarrow> rid \<in> set (radiator_ids h)"
  by (auto simp: rad_count_def andthen_def split: sum.splits dest: index_present)

lemma read_command_F: "''R#'' @ str_int rid @ ''#1#0#0*?F/'' = read_command rid ''F'' 1"
  by (simp add: read_command_def str_int_def str_nat.simps)

lemma snd_radiator_get_fw: "snd (radiator_get_fw rid w) = after 1 [read_command rid ''F'' 1] w"
  by (simp only: radiator_get_fw_def read_command_F snd_on_reply)

lemma get_power_loop_net:
  "get_power_loop rid units tot w = (Inr p, w') \<Longrightarrow>
   w' = after (length units) (map (read_command rid ''UD'') units) w"
proof (induction units arbitrary: tot w)
  case Nil
  then show ?case by (simp add: after_0)
next
  case (Cons i units)
  let ?c = "read_command rid ''UD'' i"
  obtain x w1 where o: "on_reply ?c (power_step tot) w = (x, w1)"
    by (cases "on_reply ?c (power_step tot) w")
  then have w1: "w1 = after (Suc 0) [?c] w"
    using snd_on_reply [of ?c "power_step tot" w] by simp
  from Cons.prems o obtain tot' where "x = Inr tot'"
    and "get_power_loop rid units tot' w1 = (Inr p, w')"
    by (cases x) (auto simp: read_command_def)
  from Cons.IH [OF this(2)] show ?case
    by (simp add: w1 after_after)
qed

lemma HeatappRadiator_init_steps:
  "HeatappRadiator_init h rid w =
     (case fst (radiator_get_fw rid w) of
        Inl e \<Rightarrow> (Inl e, after 1 [read_command rid ''F'' 1] w)
      | Inr (f, s) \<Rightarrow>
          (case get_power h rid (after 1 [read_command rid ''F'' 1] w) of
             (Inl e, w2) \<Rightarrow> (Inl e, w2)
           | (Inr p, w2) \<Rightarrow>
               (Inr \<lparr>rad_id = rid, rad_hub = h, rad_firmware = f, serial = s, power = p\<rparr>, w2)))"
proof -
  obtain x w1 where g: "radiator_get_fw rid w = (x, w1)" by (cases "radiator_get_fw rid w")
  then have "w1 = after 1 [read_command rid ''F'' 1] w"
    using snd_radiator_get_fw [of rid w] by simp
  with g show ?thesis
    by (simp add: HeatappRadiator_init_def split: sum.splits prod.splits)
qed

text \<open>
  C4, as the code has it. The constructor first issues the \<^verbatim>\<open>?F\<close> read against unit
  1, whether the hub knows the radiator or not. The lookup of \<open>rad_id\<close> in
  \<open>radiator_ids\<close> comes second, inside \<^verbatim>\<open>__get_power\<close>: for a \<open>rad_id\<close> that is
  absent the constructor raises (the lookup's ValueError when the \<^verbatim>\<open>?F\<close> read has
  returned), no radiator is built and no \<^verbatim>\<open>?UD\<close> read is sent. A radiator is built
  only for a \<open>rad_id\<close> that the lookup finds, and then the \<^verbatim>\<open>?UD\<close> reads of the
  units \<open>1, \<dots>, n\<close> follow the \<^verbatim>\<open>?F\<close> read.
\<close>

theorem radiator_init_order:
  "sent (snd (radiator_get_fw rid w)) = sent w @ [read_command rid ''F'' 1]
   \<and> (rid \<notin> set (radiator_ids h) \<longrightarrow>
        (\<exists>e. fst (HeatappRadiator_init h rid w) = Inl e)
        \<and> sent (snd (HeatappRadiator_init h rid w)) = sent w @ [read_command rid ''F'' 1])
   \<and> (rid \<notin> set (radiator_ids h) \<and> fst (radiator_get_fw rid w) = Inr fs \<longrightarrow>
        fst (HeatappRadiator_init h rid w) = Inl ValueError)
   \<and> (HeatappRadiator_init h rid w = (Inr r, w') \<longrightarrow>
        rid \<in> set (radiator_ids h) \<and> rad_id r = rid \<and> rad_hub r = h
        \<and> (\<exists>n. rad_count h rid = Inr n
              \<and> sent w' = sent w @ read_command rid ''F'' 1 # map (read_command rid ''UD'') [1..n]))"
proof (intro conjI impI)
  show "sent (snd (radiator_get_fw rid w)) = sent w @ [read_command rid ''F'' 1]"
    by (simp add: snd_radiator_get_fw after_def)
next
  assume a: "rid \<notin> set (radiator_ids h)"
  then have p: "\<And>v. get_power h rid v = (Inl ValueError, v)"
    by (simp add: get_power_def rad_count_absent)
  show "\<exists>e. fst (HeatappRadiator_init h rid w) = Inl e"
    by (cases "fst (radiator_get_fw rid w)") (auto simp: HeatappRadiator_init_steps p)
  show "sent (snd (HeatappRadiator_init h rid w)) = sent w @ [read_command rid ''F'' 1]"
    by (cases "fst (radiator_get_fw rid w)") (auto simp: HeatappRadiator_init_steps p after_def)
next
  assume "rid \<notin> set (radiator_ids h) \<and> fst (radiator_get_fw rid w) = Inr fs"
  then show "fst (HeatappRadiator_init h rid w) = Inl ValueError"
    by (cases fs) (simp add: HeatappRadiator_init_steps get_power_def rad_count_absent)
next
  assume i: "HeatappRadiator_init h rid w = (Inr r, w')"
  let ?w1 = "after 1 [read_command rid ''F'' 1] w"
  from i obtain f s p where fw: "fst (radiator_get_fw rid w) = Inr (f, s)"
    and gp: "get_power h rid ?w1 = (Inr p, w')"
    and r: "r = \<lparr>rad_id = rid, rad_hub = h, rad_firmware = f, serial = s, power = p\<rparr>"
    by (auto simp: HeatappRadiator_init_steps split: sum.splits prod.splits)
  from gp obtain n where n: "rad_count h rid = Inr n"
    and l: "get_power_loop rid [1..n] 0 ?w1 = (Inr p, w')"
    by (cases "rad_count h rid") (auto simp: get_power_def)
  from get_power_loop_net [OF l]
  have w': "sent w' = sent w @ read_command rid ''F'' 1 # map (read_command rid ''UD'') [1..n]"
    by (simp add: after_def)
  show "rid \<in> set (radiator_ids h)" by (rule rad_count_member [OF n])
  show "rad_id r = rid" "rad_hub r = h" by (simp_all add: r)
  show "\<exists>n. rad_count h rid = Inr n
      \<and> sent w' = sent w @ read_command rid ''F'' 1 # map (read_command rid ''UD'') [1..n]"
    using n w' by blast
qed

theorem radiator_init_order_witness:
  "fst (HeatappRadiator_init zone_hub 5 (fresh [Received ''OK,1.2,SN''])) = Inl ValueError
   \<and> sent (snd (HeatappRadiator_init zone_hub 5 (fresh [Received ''OK,1.2,SN''])))
       = [''R#5#1#0#0*?F/'']
   \<and> HeatappRadiator_init zone_hub 9
        (fresh [Received ''OK,1.2,SN'', Received ''OK,500,3'', Received ''OK,700,3''])
       = (Inr \<lparr>rad_id = 9, rad_hub = zone_hub, rad_firmware = Some ''1.2'',
               serial = Some ''SN'', power = 1200\<rparr>,
          \<lparr>pending = [], sent = [''R#9#1#0#0*?F/'', ''R#9#1#0#0*?UD/'', ''R#9#2#0#0*?UD/'']\<rparr>)
   \<and> rad_count zone_hub 9 = Inr 2"
proof -
  let ?w = "fresh [Received ''OK,1.2,SN'', Received ''OK,500,3'', Received ''OK,700,3'']"
  let ?r = "\<lparr>rad_id = 9, rad_hub = zone_hub, rad_firmware = Some ''1.2'',
             serial = Some ''SN'', power = 1200\<rparr>"
  let ?w' = "\<lparr>pending = [], sent = [''R#9#1#0#0*?F/'', ''R#9#1#0#0*?UD/'', ''R#9#2#0#0*?UD/'']\<rparr>"
  have a: "5 \<notin> set (radiator_ids zone_hub)"
    by (simp add: zone_hub_def)
  have f: "fst (radiator_get_fw 5 (fresh [Received ''OK,1.2,SN''])) = Inr (Some ''1.2'', Some ''SN'')"
    by (simp add: radiator_get_fw_def run)
  have c: "rad_count zone_hub 9 = Inr 2"
    by (simp add: rad_count_def zone_hub_def andthen_def item_def)
  have u: "[1..2::int] = [1, 2]"
    by (simp add: upto.simps)
  have i: "HeatappRadiator_init zone_hub 9 ?w = (Inr ?r, ?w')"
    by (simp add: HeatappRadiator_init_def radiator_get_fw_def get_power_def c u power_step_def
        str_int_def str_nat.simps run)
  have k: "read_command 5 ''F'' 1 = ''R#5#1#0#0*?F/''"
    by (simp add: read_command_def str_int_def str_nat.simps)
  show ?thesis
    using radiator_init_order [of 5 "fresh [Received ''OK,1.2,SN'']" zone_hub "(Some ''1.2'', Some ''SN'')"]
      radiator_init_order [of 9 ?w zone_hub _ ?r ?w'] a f c i
    by (simp add: k fresh_def)
qed

text \<open>
  C4 as stated fails: for a \<open>rad_id\<close> that the hub does not know, the \<^verbatim>\<open>?F\<close> read
  is on the wire before the lookup raises.
\<close>

theorem radiator_init_order_counterexample:
  "rad_count zone_hub 5 = Inl ValueError
   \<and> HeatappRadiator_init zone_hub 5 (fresh [])
       = (Inl ValueError, \<lparr>pending = [], sent = [''R#5#1#0#0*?F/'']\<rparr>)"
  by (simp add: HeatappRadiator_init_def radiator_get_fw_def get_power_def rad_count_def
      zone_hub_def str_int_def str_nat.simps run)

subsection \<open>Timeouts\<close>

lemma status_token_TIMEOUT: "status_token ''TIMEOUT'' = ''TIMEOUT''"
  by (simp add: status_token_def)

lemma on_reply_Timeout:
  "next_outcome w = Timeout \<Longrightarrow>
   on_reply c f w = (f (split (CHR '','') ''TIMEOUT''), after 1 [c] w)"
  by (simp add: on_reply_eq reply_def)

lemma outcomes_replicate_Suc:
  assumes "outcomes (Suc k) w = replicate (Suc k) Timeout"
  shows "next_outcome w = Timeout \<and> outcomes k (after 1 [c] w) = replicate k Timeout"
  using assms by (simp add: outcomes_Suc [of k w c])

lemma get_power_loop_timeouts:
  "outcomes (length units) w = replicate (length units) Timeout \<Longrightarrow>
   fst (get_power_loop rid units tot w) = Inr tot"
proof (induction units arbitrary: w)
  case Nil
  show ?case by simp
next
  case (Cons i units)
  let ?c = "read_command rid ''UD'' i"
  from Cons.prems have t: "next_outcome w = Timeout"
    and rest: "outcomes (length units) (after 1 [?c] w) = replicate (length units) Timeout"
    using outcomes_replicate_Suc [of "length units" w ?c] by simp_all
  have "power_step tot (split (CHR '','') ''TIMEOUT'') = Inr tot"
    by (simp add: power_step_def item0_split status_token_TIMEOUT andthen_def
        del: split.simps)
  with t have "get_power_loop rid (i # units) tot w = get_power_loop rid units tot (after 1 [?c] w)"
    by (simp add: on_reply_Timeout read_command_def del: split.simps)
  with Cons.IH [OF rest] show ?case by simp
qed

lemma last_reply_Timeout:
  assumes "map reply outs = map Inr rs" and "outs \<noteq> []" and "last outs = Timeout"
  shows "last rs = ''TIMEOUT''"
proof -
  have "rs \<noteq> []" using assms(1,2) by auto
  have "last (map reply outs) = reply (last outs)"
    using assms(2) by (rule last_map)
  moreover have "last (map Inr rs) = (Inr (last rs) :: pyerr + string)"
    using \<open>rs \<noteq> []\<close> by (rule last_map)
  ultimately have "(Inr (last rs) :: pyerr + string) = reply Timeout"
    using assms(1,3) by simp
  then show ?thesis by (simp add: reply_def)
qed

lemma int_of_str_separators:
  "int_of_str [CHR 0x1C, CHR ''5''] = Inl ValueError
   \<and> int_of_str [CHR 0x09, CHR ''7'', CHR 0x0A] = Inr 7
   \<and> int_of_str [CHR 0x85, CHR ''7'', CHR 0xA0] = Inr 7"
  by (simp add: run)

text \<open>
  A field that opens with one of the separators 28 to 31 is no integer for the code:
  such a response carries no reading, and the read of the energy and of the time raise
  on it.
\<close>

lemma separator_fields_raise:
  "unit_energy exact_ops (''OK,'' @ [CHR 0x1C] @ ''5000,100'') = None
   \<and> fst (get_energy_usage exact_ops zone_hub 7
          (fresh [Received (''OK,'' @ [CHR 0x1C] @ ''5000,100'')])) = Inl ValueError
   \<and> fst (get_time (fresh [Received (''OPOK,10,20,30,3,15,6,'' @ [CHR 0x1C] @ ''24'')]))
       = Inl ValueError"
  by (simp add: unit_energy_def get_energy_usage_def rad_count_def zone_hub_def energy_step_def
      exact_ops_def get_time_def upto.simps str_int_def str_nat.simps run)

text \<open>
  C7, as the code has it. When an exchange times out, send\_command returns the text
  \<^verbatim>\<open>TIMEOUT\<close> and raises nothing, and every method that calls it takes that text
  for a failure of that exchange, without raising: ready gives \<open>False\<close>; get\_fw,
  get\_nw, get\_time and get\_temperature give \<open>None\<close>; the two topology queries give
  \<open>[]\<close>; the radiator's firmware read gives \<open>None\<close> for both fields. In the loops
  over the units of a zone a unit that times out clears the flag and adds nothing to
  the total, and each unit overwrites the flag of the one before: for a zone that the
  hub knows, set\_temperature gives \<open>False\<close> and get\_energy\_usage gives \<open>None\<close>
  when the exchange of the last unit times out (the earlier units having answered, with
  readings where they answered \<^verbatim>\<open>OK\<close>), in particular when every unit times out,
  and then the power read counts nothing. A timeout of an earlier unit does not decide
  the result.
\<close>

theorem timeout_is_failure:
  assumes "next_outcome w = Timeout"
  shows "send_command c w = (Inr ''TIMEOUT'', after 1 [c] w)
     \<and> fst (ready w) = Inr False
     \<and> fst (get_fw w) = Inr None
     \<and> fst (get_nw w) = Inr None
     \<and> fst (get_time w) = Inr None
     \<and> fst (get_radiator_ids w) = Inr []
     \<and> fst (get_radiators_per_zone w) = Inr []
     \<and> fst (get_temperature h rid w) = Inr None
     \<and> fst (radiator_get_fw rid w) = Inr (None, None)
     \<and> energy_step ops tot (split (CHR '','') ''TIMEOUT'') = Inr (tot, False)
     \<and> power_step p (split (CHR '','') ''TIMEOUT'') = Inr p
     \<and> (rad_count h rid = Inr n \<and> 1 \<le> n
          \<and> map reply (outcomes (nat n) v) = map Inr rs
          \<and> last (outcomes (nat n) v) = Timeout \<longrightarrow>
          fst (set_temperature h rid target v) = Inr False
          \<and> ((\<forall>r\<in>set rs. status_token r = ''OK'' \<longrightarrow> unit_energy ops r \<noteq> None) \<longrightarrow>
               fst (get_energy_usage ops h rid v) = Inr None))
     \<and> (rad_count h rid = Inr n \<and> outcomes (nat n) v = replicate (nat n) Timeout \<longrightarrow>
          fst (set_temperature h rid target v) = Inr False
          \<and> fst (get_energy_usage ops h rid v) = Inr None
          \<and> fst (get_power h rid v) = Inr 0)"
proof -
  have tok: "item (split (CHR '','') ''TIMEOUT'') 0 = Inr ''TIMEOUT''"
    by (simp add: item0_split status_token_TIMEOUT del: split.simps)
  have single: "send_command c w = (Inr ''TIMEOUT'', after 1 [c] w)"
    "fst (ready w) = Inr False" "fst (get_fw w) = Inr None" "fst (get_nw w) = Inr None"
    "fst (get_time w) = Inr None" "fst (get_radiator_ids w) = Inr []"
    "fst (get_radiators_per_zone w) = Inr []" "fst (get_temperature h rid w) = Inr None"
    "fst (radiator_get_fw rid w) = Inr (None, None)"
    "energy_step ops tot (split (CHR '','') ''TIMEOUT'') = Inr (tot, False)"
    "power_step p (split (CHR '','') ''TIMEOUT'') = Inr p"
    using assms
    by (simp_all add: send_command_eq reply_def ready_def get_fw_def get_nw_def get_time_def
        get_radiator_ids_def get_radiators_per_zone_def get_temperature_def radiator_get_fw_def
        energy_step_def power_step_def on_reply_Timeout tok andthen_def del: split.simps)
  have lastunit: "fst (set_temperature h rid target v) = Inr False
      \<and> ((\<forall>r\<in>set rs. status_token r = ''OK'' \<longrightarrow> unit_energy ops r \<noteq> None) \<longrightarrow>
           fst (get_energy_usage ops h rid v) = Inr None)"
    if n: "rad_count h rid = Inr n" and pos: "1 \<le> n"
      and m: "map reply (outcomes (nat n) v) = map Inr rs"
      and t: "last (outcomes (nat n) v) = Timeout"
  proof -
    have ne: "[1..n] \<noteq> []" using pos by simp
    have "outcomes (nat n) v \<noteq> []"
      using pos arg_cong [of "outcomes (nat n) v" _ length] by (auto simp: outcomes_def)
    from last_reply_Timeout [OF m this t] have l: "last rs = ''TIMEOUT''" .
    have m': "map reply (outcomes (length [1..n]) v) = map Inr rs"
      using m by simp
    have s: "fst (set_temperature h rid target v) = Inr False"
      using set_temperature_loop_last [OF m', of rid target False] l n ne
      by (simp add: set_temperature_def status_token_TIMEOUT)
    have e: "fst (get_energy_usage ops h rid v) = Inr None"
      if wf: "\<forall>r\<in>set rs. status_token r = ''OK'' \<longrightarrow> unit_energy ops r \<noteq> None"
      using get_energy_usage_loop_sum [OF m' wf, of rid "fzero ops" False] l n ne
      by (simp add: get_energy_usage_def status_token_TIMEOUT)
    from s e show ?thesis by blast
  qed
  have loops: "fst (set_temperature h rid target v) = Inr False
      \<and> fst (get_energy_usage ops h rid v) = Inr None
      \<and> fst (get_power h rid v) = Inr 0"
    if n: "rad_count h rid = Inr n" and o: "outcomes (nat n) v = replicate (nat n) Timeout"
  proof -
    let ?rs = "replicate (nat n) ''TIMEOUT''"
    have m: "map reply (outcomes (length [1..n]) v) = map Inr ?rs"
      using o by (simp add: reply_def)
    have l: "[1..n] \<noteq> [] \<Longrightarrow> last ?rs = ''TIMEOUT''"
      by (cases "nat n") (simp_all add: last_replicate)
    have wf: "\<forall>r\<in>set ?rs. status_token r = ''OK'' \<longrightarrow> unit_energy ops r \<noteq> None"
      by (simp add: status_token_TIMEOUT)
    have "fst (set_temperature h rid target v) = Inr False"
      using set_temperature_loop_last [OF m, of rid target False] l n
      by (simp add: set_temperature_def status_token_TIMEOUT)
    moreover have "fst (get_energy_usage ops h rid v) = Inr None"
      using get_energy_usage_loop_sum [OF m wf, of rid "fzero ops" False] l n
      by (simp add: get_energy_usage_def status_token_TIMEOUT)
    moreover have "fst (get_power h rid v) = Inr 0"
      using get_power_loop_timeouts [of "[1..n]" v rid 0] o n
      by (simp add: get_power_def)
    ultimately show ?thesis by simp
  qed
  from single lastunit loops show ?thesis by blast
qed

theorem timeout_is_failure_witness:
  "send_command ''OPS1/'' (fresh []) = (Inr ''TIMEOUT'', \<lparr>pending = [], sent = [''OPS1/'']\<rparr>)
   \<and> fst (ready (fresh [])) = Inr False
   \<and> fst (get_fw (fresh [])) = Inr None
   \<and> fst (get_nw (fresh [])) = Inr None
   \<and> fst (get_time (fresh [])) = Inr None
   \<and> fst (get_radiator_ids (fresh [])) = Inr []
   \<and> fst (get_radiators_per_zone (fresh [])) = Inr []
   \<and> fst (get_temperature zone_hub 9 (fresh [])) = Inr None
   \<and> fst (radiator_get_fw 9 (fresh [])) = Inr (None, None)
   \<and> rad_count zone_hub 9 = Inr 2
   \<and> fst (set_temperature zone_hub 9 ''21'' (fresh [Received ''OK,5000,100'', Timeout])) = Inr False
   \<and> unit_energy exact_ops ''OK,5000,100'' = Some 50
   \<and> fst (get_energy_usage exact_ops zone_hub 9 (fresh [Received ''OK,5000,100'', Timeout])) = Inr None
   \<and> fst (set_temperature zone_hub 9 ''21'' (fresh [])) = Inr False
   \<and> fst (get_energy_usage exact_ops zone_hub 9 (fresh [])) = Inr None
   \<and> fst (get_power zone_hub 9 (fresh [])) = Inr 0"
proof -
  let ?v = "fresh [Received ''OK,5000,100'', Timeout]"
  have t: "next_outcome (fresh []) = Timeout"
    by (simp add: next_outcome_def fresh_def)
  have c: "rad_count zone_hub 9 = Inr 2"
    by (simp add: rad_count_def zone_hub_def andthen_def item_def)
  have o: "outcomes (nat 2) (fresh []) = replicate (nat 2) Timeout"
    by (simp add: outcomes_def fresh_def)
  have m: "map reply (outcomes (nat 2) ?v) = map Inr [''OK,5000,100'', ''TIMEOUT'']"
    by (simp add: outcomes_def fresh_def reply_def rstrip_def)
  have l: "last (outcomes (nat 2) ?v) = Timeout"
    by (simp add: outcomes_def fresh_def)
  have e: "unit_energy exact_ops ''OK,5000,100'' = Some 50"
    by (simp add: unit_energy_def exact_ops_def run)
  have wf: "\<forall>r\<in>set [''OK,5000,100'', ''TIMEOUT'']. status_token r = ''OK'' \<longrightarrow> unit_energy exact_ops r \<noteq> None"
    using e by (simp add: status_token_def)
  show ?thesis
    using timeout_is_failure [OF t, of "''OPS1/''" zone_hub 9 exact_ops _ _ 2 "fresh []" _ "''21''"]
      timeout_is_failure [OF t, of _ zone_hub 9 exact_ops _ _ 2 ?v "[''OK,5000,100'', ''TIMEOUT'']" "''21''"]
      c o m l e wf
    by (simp add: after_def fresh_def)
qed

text \<open>
  C7 as stated fails for the loops: when unit 1 of a zone of two times out and unit 2
  answers \<^verbatim>\<open>OK\<close>, set\_temperature returns \<open>True\<close> and get\_energy\_usage returns
  the reading of unit 2, not a failure.
\<close>

theorem timeout_overwritten_counterexample:
  "rad_count zone_hub 9 = Inr 2
   \<and> fst (send_command ''D#9#1#0#0*T21/'' (fresh [Timeout, Received ''OK''])) = Inr ''TIMEOUT''
   \<and> fst (set_temperature zone_hub 9 ''21'' (fresh [Timeout, Received ''OK''])) = Inr True
   \<and> fst (get_energy_usage exact_ops zone_hub 9 (fresh [Timeout, Received ''OK,5000,200'']))
       = Inr (Some 100)"
  by (simp add: set_temperature_def get_energy_usage_def rad_count_def zone_hub_def
      energy_step_def exact_ops_def upto.simps str_int_def str_nat.simps run)

end
